theory Spec2Isabelle
  imports Main "HOL-Library.AList"
begin

section \<open>JavaScript values\<close>

text \<open>
  The dialog override (\<^verbatim>\<open>overrides/dialog.js\<close>) is a closure over a DOM element, an
  options object and the process-wide defaults \<^verbatim>\<open>drupalSettings.dialog\<close>. Option values
  are dynamically typed, so they are modelled by a datatype of JavaScript values. A button
  description is the object read by \<^verbatim>\<open>updateButtons\<close>: its four properties \<^verbatim>\<open>text\<close>,
  \<^verbatim>\<open>class\<close>, \<^verbatim>\<open>attributes\<close> and \<^verbatim>\<open>click\<close>, each of which may be undefined
  (\<open>None\<close>). A function value is identified by its source text.
\<close>

datatype ButtonSpec = ButtonSpec
  (btn_text: "string option")
  (btn_class: "string option")
  (btn_attributes: "(string \<times> string) list option")
  (btn_click: "string option")

datatype jsval =
    JUndefined
  | JNull
  | JBool bool
  | JNum int
  | JStr string
  | JFun string
  | JArr "ButtonSpec list"
  | JObj "(string \<times> jsval) list"

type_synonym obj = "(string \<times> jsval) list"

text \<open>Property read \<^verbatim>\<open>ob.k\<close>: a missing property reads as undefined.\<close>

definition getprop :: "obj \<Rightarrow> string \<Rightarrow> jsval" where
  "getprop ob k = (case map_of ob k of None \<Rightarrow> JUndefined | Some v \<Rightarrow> v)"

text \<open>Truthiness, as tested by \<^verbatim>\<open>!settings.modal\<close>.\<close>

fun truthy :: "jsval \<Rightarrow> bool" where
  "truthy JUndefined = False"
| "truthy JNull = False"
| "truthy (JBool b) = b"
| "truthy (JNum n) = (n \<noteq> 0)"
| "truthy (JStr s) = (s \<noteq> [])"
| "truthy (JFun f) = True"
| "truthy (JArr bs) = True"
| "truthy (JObj ob) = True"

text \<open>Decimal digits of a natural number, for the string conversion of numbers.\<close>

function decimal :: "nat \<Rightarrow> string" where
  "decimal n = (if n < 10 then [''0123456789'' ! n]
                else decimal (n div 10) @ [''0123456789'' ! (n mod 10)])"
  by pat_completeness auto
termination
  by (relation "measure id") auto

declare decimal.simps [simp del]

fun join_with :: "string \<Rightarrow> string list \<Rightarrow> string" where
  "join_with sep [] = []"
| "join_with sep [x] = x"
| "join_with sep (x # y # ys) = x @ sep @ join_with sep (y # ys)"

text \<open>
  String conversion, as performed by a template literal \<^verbatim>\<open>`${v}`\<close>. Plain objects
  convert to \<^verbatim>\<open>[object Object]\<close>, an array joins its converted elements with commas.
\<close>

fun js_string :: "jsval \<Rightarrow> string" where
  "js_string JUndefined = ''undefined''"
| "js_string JNull = ''null''"
| "js_string (JBool b) = (if b then ''true'' else ''false'')"
| "js_string (JNum n) = (if n < 0 then ''-'' @ decimal (nat (- n)) else decimal (nat n))"
| "js_string (JStr s) = s"
| "js_string (JFun f) = f"
| "js_string (JArr bs) = join_with '','' (map (\<lambda>b. ''[object Object]'') bs)"
| "js_string (JObj ob) = ''[object Object]''"

text \<open>\<^verbatim>\<open>Array.prototype.join\<close>: undefined and null elements contribute the empty string.\<close>

definition array_join :: "string \<Rightarrow> jsval list \<Rightarrow> string" where
  "array_join sep vs =
     join_with sep (map (\<lambda>v. if v = JUndefined \<or> v = JNull then [] else js_string v) vs)"

subsection \<open>The store of mutable option objects\<close>

text \<open>
  The defaults object, the constructor's options object and the merged settings object of
  each call are distinct mutable objects; the claims about merging depend on which of them
  is written. They live in a store, addressed by position. \<^verbatim>\<open>$.extend(target, src, ...)\<close>
  writes the target in place: it copies every property of every source whose value is not
  undefined (and whose name is not \<^verbatim>\<open>__proto__\<close>), later sources overwriting earlier ones.
\<close>

type_synonym store = "obj list"

definition hget :: "store \<Rightarrow> nat \<Rightarrow> obj" where
  "hget h r = (if r < length h then h ! r else [])"

definition extend_obj :: "obj \<Rightarrow> obj \<Rightarrow> obj" where
  "extend_obj target src =
     foldl (\<lambda>t (k, v). if k = ''__proto__'' \<or> v = JUndefined then t else AList.update k v t)
       target src"

definition jq_extend :: "nat \<Rightarrow> obj list \<Rightarrow> store \<Rightarrow> store" where
  "jq_extend target srcs h = h[target := foldl extend_obj (hget h target) srcs]"

text \<open>The settings test of the source (lines 74-76).\<close>

definition settingIsTrue :: "jsval \<Rightarrow> bool" where
  "settingIsTrue setting \<longleftrightarrow>
     setting \<noteq> JUndefined \<and> (setting = JBool True \<or> setting = JStr ''true'')"

text \<open>The defaults installed at load time (lines 25-38).\<close>

definition dialog_defaults :: obj where
  "dialog_defaults =
    [(''autoOpen'', JBool True),
     (''dialogClasses'', JStr []),
     (''dialogShowHeader'', JBool True),
     (''dialogShowHeaderTitle'', JBool True),
     (''dialogStatic'', JBool False),
     (''dialogHeadingLevel'', JNum 5),
     (''buttonClass'', JStr ''btn''),
     (''buttonPrimaryClass'', JStr ''btn-primary''),
     (''close'', JFun ''function close(event) { Drupal.modal(event.target).close(); Drupal.detachBehaviors(event.target, null, 'unload'); }'')]"

section \<open>The DOM and the jQuery operations used by the source\<close>

text \<open>
  An element has a tag, attributes (in order, their names in lower case), inline style
  properties, the click listeners bound to it and its children; the other nodes are text.
  The only listener the source binds is the click wrapper of a footer button, which
  forwards the event to \<^verbatim>\<open>buttonObject.click\<close> when that is defined.
\<close>

datatype handler = ClickForward "string option"

datatype node =
    Elem (tag: string) (attrs: "(string \<times> string) list") (styles: "(string \<times> string) list")
      (handlers: "handler list") (kids: "node list")
  | Text string

text \<open>
  What the host provides: whether the jQuery object has the \<^verbatim>\<open>modal\<close> plugin, whether
  \<^verbatim>\<open>DrupalDialogEvent\<close> is defined, the translation \<^verbatim>\<open>Drupal.t\<close>,
  \<^verbatim>\<open>JSON.stringify\<close>, the browser's parser of markup (given the tag of the element in
  whose context the markup is parsed, and the markup) and the browser's test of an
  attribute name, which \<^verbatim>\<open>setAttribute\<close> applies.
\<close>

record env =
  has_modal :: bool
  has_DrupalDialogEvent :: bool
  translate :: "string \<Rightarrow> string"
  stringify :: "obj \<Rightarrow> string"
  parse_html :: "string \<Rightarrow> string \<Rightarrow> node list"
  valid_attr_name :: "string \<Rightarrow> bool"

datatype error = TypeError | InvalidCharacterError | OutsideModel

subsection \<open>Class lists\<close>

text \<open>
  A class attribute is a list of tokens separated by HTML white space (space, tab, line
  feed, form feed, carriage return), for the class selector and for \<^verbatim>\<open>addClass\<close> alike.
\<close>

definition is_space :: "char \<Rightarrow> bool" where
  "is_space c \<longleftrightarrow> c \<in> {CHR 0x20, CHR 0x09, CHR 0x0A, CHR 0x0C, CHR 0x0D}"

fun tokens :: "string \<Rightarrow> string \<Rightarrow> string list" where
  "tokens cur [] = (if cur = [] then [] else [cur])"
| "tokens cur (c # cs) =
     (if is_space c then (if cur = [] then tokens [] cs else cur # tokens [] cs)
      else tokens (cur @ [c]) cs)"

definition class_tokens :: "string \<Rightarrow> string list" where
  "class_tokens s = tokens [] s"

definition class_in :: "string \<Rightarrow> (string \<times> string) list \<Rightarrow> bool" where
  "class_in c ats =
     (case map_of ats ''class'' of None \<Rightarrow> False | Some v \<Rightarrow> c \<in> set (class_tokens v))"

text \<open>
  The test \<^verbatim>\<open>.match(/\bbtn-.*/)\<close> of line 104: the text \<^verbatim>\<open>btn-\<close> occurs at a word
  boundary, that is at the start of the string or after a character that is not a word
  character; \<^verbatim>\<open>.*\<close> matches the empty string, so nothing is required after it. The flag
  says whether the position is at a word boundary.
\<close>

definition is_word_char :: "char \<Rightarrow> bool" where
  "is_word_char c \<longleftrightarrow>
     c \<in> set ''ABCDEFGHIJKLMNOPQRSTUVWXYZabcdefghijklmnopqrstuvwxyz0123456789_''"

fun btn_match_from :: "bool \<Rightarrow> string \<Rightarrow> bool" where
  "btn_match_from b [] = False"
| "btn_match_from b (c # cs) =
     ((b \<and> take 4 (c # cs) = ''btn-'') \<or> btn_match_from (\<not> is_word_char c) cs)"

definition btn_match :: "string \<Rightarrow> bool" where
  "btn_match s = btn_match_from True s"

subsection \<open>Operations on one element\<close>

fun attr_get :: "string \<Rightarrow> node \<Rightarrow> string option" where
  "attr_get k (Elem t ats sty hs ks) = map_of ats k"
| "attr_get k (Text s) = None"

fun attr_set :: "string \<Rightarrow> string \<Rightarrow> node \<Rightarrow> node" where
  "attr_set k v (Elem t ats sty hs ks) = Elem t (AList.update k v ats) sty hs ks"
| "attr_set k v (Text s) = Text s"

text \<open>
  \<^verbatim>\<open>.attr(name, value)\<close> with a name chosen by the caller. For a boolean attribute
  (its name compared without regard to case) jQuery stores the name in place of the value.
  \<^verbatim>\<open>setAttribute\<close> throws an InvalidCharacterError when the browser rejects the name, and
  stores the name in lower case otherwise. \<^verbatim>\<open>.attr(map)\<close> does so for each entry in
  turn and stops at the first that throws.
\<close>

definition lower_char :: "char \<Rightarrow> char" where
  "lower_char c =
     (case map_of (zip ''ABCDEFGHIJKLMNOPQRSTUVWXYZ'' ''abcdefghijklmnopqrstuvwxyz'') c of
        None \<Rightarrow> c
      | Some d \<Rightarrow> d)"

definition bool_attrs :: "string list" where
  "bool_attrs =
     [''checked'', ''selected'', ''async'', ''autofocus'', ''autoplay'', ''controls'', ''defer'',
      ''disabled'', ''hidden'', ''ismap'', ''loop'', ''multiple'', ''open'', ''readonly'',
      ''required'', ''scoped'']"

definition attr_write :: "env \<Rightarrow> string \<Rightarrow> string \<Rightarrow> node \<Rightarrow> error + node" where
  "attr_write ev name val n =
     (let v = (if map lower_char name \<in> set bool_attrs then name else val)
      in if valid_attr_name ev name
         then Inr (attr_set (map lower_char name) v n)
         else Inl InvalidCharacterError)"

fun attr_map :: "env \<Rightarrow> (string \<times> string) list \<Rightarrow> node \<Rightarrow> error + node" where
  "attr_map ev [] n = Inr n"
| "attr_map ev ((k, v) # m) n =
     (case attr_write ev k v n of
        Inl e \<Rightarrow> Inl e
      | Inr n1 \<Rightarrow> attr_map ev m n1)"

fun removeAttr :: "string \<Rightarrow> node \<Rightarrow> node" where
  "removeAttr k (Elem t ats sty hs ks) = Elem t (AList.delete k ats) sty hs ks"
| "removeAttr k (Text s) = Text s"

fun css_get :: "string \<Rightarrow> node \<Rightarrow> string option" where
  "css_get k (Elem t ats sty hs ks) = map_of sty k"
| "css_get k (Text s) = None"

fun css_set :: "string \<Rightarrow> string \<Rightarrow> node \<Rightarrow> node" where
  "css_set k v (Elem t ats sty hs ks) = Elem t ats (AList.update k v sty) hs ks"
| "css_set k v (Text s) = Text s"

fun click_bind :: "string option \<Rightarrow> node \<Rightarrow> node" where
  "click_bind f (Elem t ats sty hs ks) = Elem t ats sty (hs @ [ClickForward f]) ks"
| "click_bind f (Text s) = Text s"

text \<open>
  \<^verbatim>\<open>.html(value)\<close> replaces the children by what the browser parses the value to, in
  the context of the element (nothing for the empty string); with an undefined argument
  it only reads.
\<close>

fun html_set :: "env \<Rightarrow> string option \<Rightarrow> node \<Rightarrow> node" where
  "html_set ev None n = n"
| "html_set ev (Some s) (Elem t ats sty hs ks) =
     Elem t ats sty hs (if s = [] then [] else parse_html ev t s)"
| "html_set ev (Some s) (Text m) = Text m"

text \<open>
  \<^verbatim>\<open>.addClass(value)\<close>: the class names of the argument that the element does not have
  yet are added at the end, in order; the attribute is written only when that changes it.
  An undefined argument, or one without a class name, changes nothing.
\<close>

definition add_missing :: "string list \<Rightarrow> string list \<Rightarrow> string list" where
  "add_missing cur names = foldl (\<lambda>acc c. if c \<in> set acc then acc else acc @ [c]) cur names"

definition addClass :: "string option \<Rightarrow> node \<Rightarrow> node" where
  "addClass val n =
     (case val of
        None \<Rightarrow> n
      | Some v \<Rightarrow>
          (let classNames = class_tokens v in
           if classNames = [] then n
           else
             (let curValue = (case attr_get ''class'' n of None \<Rightarrow> [] | Some c \<Rightarrow> c);
                  finalValue = join_with '' '' (add_missing (class_tokens curValue) classNames)
              in if curValue = finalValue then n else attr_set ''class'' finalValue n)))"

text \<open>
  Serialisation, for the test \<^verbatim>\<open>$(modalFooter).html().length > 0\<close>; only whether the
  result is empty matters to the source.
\<close>

fun outer_html :: "node \<Rightarrow> string" where
  "outer_html (Text s) = s"
| "outer_html (Elem t ats sty hs ks) =
     ''<'' @ t @ concat (map (\<lambda>(k, v). '' '' @ k @ ''='' @ [CHR 0x22] @ v @ [CHR 0x22]) ats)
       @ ''>'' @ concat (map outer_html ks) @ ''</'' @ t @ ''>''"

definition inner_html :: "node \<Rightarrow> string" where
  "inner_html n = (case n of Text s \<Rightarrow> s | Elem t ats sty hs ks \<Rightarrow> concat (map outer_html ks))"

subsection \<open>Selections\<close>

text \<open>
  The source selects with descendant chains of class selectors inside the bound element,
  as in \<^verbatim>\<open>$('.modal-dialog .modal-content', $element)\<close>. A selector is the list of its
  class names; the context passed down the tree is the list of the attributes of the
  ancestors below the bound element, nearest first. jQuery roots the whole chain inside
  the context element, so the bound element itself is no ancestor.
\<close>

type_synonym selector = "string list"
type_synonym ancestors = "(string \<times> string) list list"

fun chain :: "string list \<Rightarrow> ancestors \<Rightarrow> bool" where
  "chain [] anc = True"
| "chain (c # cs) [] = False"
| "chain (c # cs) (a # anc) = (if class_in c a then chain cs anc else chain (c # cs) anc)"

definition matches :: "selector \<Rightarrow> ancestors \<Rightarrow> (string \<times> string) list \<Rightarrow> bool" where
  "matches sel anc ats =
     (case rev sel of [] \<Rightarrow> False | c # cs \<Rightarrow> class_in c ats \<and> chain cs anc)"

fun find_in :: "selector \<Rightarrow> ancestors \<Rightarrow> node \<Rightarrow> node list" where
  "find_in sel anc (Text s) = []"
| "find_in sel anc (Elem t ats sty hs ks) =
     (if matches sel anc ats then [Elem t ats sty hs ks] else [])
       @ concat (map (find_in sel (ats # anc)) ks)"

fun remove_in :: "selector \<Rightarrow> ancestors \<Rightarrow> node \<Rightarrow> node list" where
  "remove_in sel anc (Text s) = [Text s]"
| "remove_in sel anc (Elem t ats sty hs ks) =
     (if matches sel anc ats then []
      else [Elem t ats sty hs (concat (map (remove_in sel (ats # anc)) ks))])"

fun each_in :: "selector \<Rightarrow> (node \<Rightarrow> node) \<Rightarrow> ancestors \<Rightarrow> node \<Rightarrow> node" where
  "each_in sel f anc (Text s) = Text s"
| "each_in sel f anc (Elem t ats sty hs ks) =
     (let n = Elem t ats sty hs (map (each_in sel f (ats # anc)) ks)
      in if matches sel anc ats then f n else n)"

fun append_in :: "selector \<Rightarrow> node \<Rightarrow> ancestors \<Rightarrow> node \<Rightarrow> node" where
  "append_in sel new anc (Text s) = Text s"
| "append_in sel new anc (Elem t ats sty hs ks) =
     Elem t ats sty hs
       (map (append_in sel new (ats # anc)) ks @ (if matches sel anc ats then [new] else []))"

fun prepend_in :: "selector \<Rightarrow> node list \<Rightarrow> ancestors \<Rightarrow> node \<Rightarrow> node" where
  "prepend_in sel new anc (Text s) = Text s"
| "prepend_in sel new anc (Elem t ats sty hs ks) =
     Elem t ats sty hs
       ((if matches sel anc ats then new else []) @ map (prepend_in sel new (ats # anc)) ks)"

text \<open>The same operations from the bound element: they act on what lies below it.\<close>

definition below :: "(node list \<Rightarrow> node list) \<Rightarrow> node \<Rightarrow> node" where
  "below f el = (case el of Text s \<Rightarrow> Text s | Elem t ats sty hs ks \<Rightarrow> Elem t ats sty hs (f ks))"

definition jq_find :: "selector \<Rightarrow> node \<Rightarrow> node list" where
  "jq_find sel el =
     (case el of Text s \<Rightarrow> [] | Elem t ats sty hs ks \<Rightarrow> concat (map (find_in sel []) ks))"

definition jq_remove :: "selector \<Rightarrow> node \<Rightarrow> node" where
  "jq_remove sel el = below (\<lambda>ks. concat (map (remove_in sel []) ks)) el"

definition jq_each :: "selector \<Rightarrow> (node \<Rightarrow> node) \<Rightarrow> node \<Rightarrow> node" where
  "jq_each sel f el = below (map (each_in sel f [])) el"

definition jq_appendTo :: "node \<Rightarrow> selector \<Rightarrow> node \<Rightarrow> node" where
  "jq_appendTo new sel el = below (map (append_in sel new [])) el"

definition jq_prependTo :: "node list \<Rightarrow> selector \<Rightarrow> node \<Rightarrow> node" where
  "jq_prependTo new sel el = below (map (prepend_in sel new [])) el"

definition sel_dialog :: selector where
  "sel_dialog = [''modal-dialog'']"

definition sel_content :: selector where
  "sel_content = [''modal-dialog'', ''modal-content'']"

definition sel_footer :: selector where
  "sel_footer = [''modal-dialog'', ''modal-content'', ''modal-footer'']"

section \<open>The dialog\<close>

text \<open>
  The state that the closure of \<^verbatim>\<open>Drupal.dialog\<close> works on: the two data fields of the
  handle, the bound element, the store of option objects, and the trace of what the
  closure sends to its collaborators (events for listeners, calls of the modal library).
  An event records the settings object as it is at the time of the dispatch, which is what
  a listener observes.
\<close>

datatype effect =
    WindowTrigger string "obj option"
  | ElementDispatch string obj
  | ModalInit obj
  | ModalCall string

record dialog_state =
  dialog_open :: bool
  dialog_returnValue :: jsval
  element :: node
  store :: store
  trace :: "effect list"

text \<open>
  What the closure captures: where \<^verbatim>\<open>drupalSettings.dialog\<close> and the \<^verbatim>\<open>options\<close>
  argument live in the store (\<open>None\<close> when no options were passed).
\<close>

record dialog_ctx =
  defaults_ref :: nat
  options_ref :: "nat option"

datatype outcome = Done dialog_state | Thrown error dialog_state

fun state_of :: "outcome \<Rightarrow> dialog_state" where
  "state_of (Done st) = st"
| "state_of (Thrown e st) = st"

text \<open>
  \<^verbatim>\<open>$.extend({}, drupalSettings.dialog, options, settings)\<close>: a new empty object is
  allocated and the sources are copied into it. The result is the address of the new
  object and the store.
\<close>

definition merge_settings :: "dialog_ctx \<Rightarrow> obj list \<Rightarrow> store \<Rightarrow> nat \<times> store" where
  "merge_settings cx call h =
     (let target = length h;
          h1 = h @ [[]];
          srcs = [hget h1 (defaults_ref cx)]
                 @ (case options_ref cx of None \<Rightarrow> [] | Some r \<Rightarrow> [hget h1 r])
                 @ call
      in (target, jq_extend target srcs h1))"

definition set_field :: "nat \<Rightarrow> string \<Rightarrow> jsval \<Rightarrow> store \<Rightarrow> store" where
  "set_field r k v h = h[r := AList.update k v (hget h r)]"

subsection \<open>updateButtons (lines 78-119)\<close>

definition new_button :: node where
  "new_button = Elem ''button'' [(''type'', ''button'')] [] [] []"

text \<open>
  Lines 87-98: the button with its attributes, class, click wrapper and text. Setting the
  attributes may throw; nothing else is done to the button then.
\<close>

definition assemble_button :: "env \<Rightarrow> ButtonSpec \<Rightarrow> error + node" where
  "assemble_button ev buttonObject =
     (case (case btn_attributes buttonObject of
              None \<Rightarrow> Inr new_button
            | Some m \<Rightarrow> attr_map ev m new_button) of
        Inl e \<Rightarrow> Inl e
      | Inr button \<Rightarrow>
          Inr (html_set ev (btn_text buttonObject)
                (click_bind (btn_click buttonObject) (addClass (btn_class buttonObject) button))))"

text \<open>Lines 100-107: the fallback classes.\<close>

definition class_fallback :: "obj \<Rightarrow> node \<Rightarrow> node" where
  "class_fallback settings button =
     (let classes = [getprop settings ''buttonClass'', getprop settings ''buttonPrimaryClass'']
      in case attr_get ''class'' button of
           None \<Rightarrow> button
         | Some c \<Rightarrow>
             if c \<noteq> [] \<and> \<not> btn_match c
             then addClass (Some (array_join '' '' classes)) button
             else button)"

definition build_button :: "env \<Rightarrow> obj \<Rightarrow> ButtonSpec \<Rightarrow> error + node" where
  "build_button ev settings buttonObject =
     (case assemble_button ev buttonObject of
        Inl e \<Rightarrow> Inl e
      | Inr button \<Rightarrow> Inr (class_fallback settings button))"

text \<open>
  The loop of lines 83-110 builds the buttons in order; a button that throws ends it, and
  the buttons built before are lost with the footer that held them.
\<close>

fun build_buttons :: "env \<Rightarrow> obj \<Rightarrow> ButtonSpec list \<Rightarrow> error + node list" where
  "build_buttons ev settings [] = Inr []"
| "build_buttons ev settings (buttonObject # buttons) =
     (case build_button ev settings buttonObject of
        Inl e \<Rightarrow> Inl e
      | Inr button \<Rightarrow>
          (case build_buttons ev settings buttons of
             Inl e \<Rightarrow> Inl e
           | Inr rest \<Rightarrow> Inr (button # rest)))"

definition modal_footer :: "node list \<Rightarrow> node" where
  "modal_footer buttons = Elem ''div'' [(''class'', ''modal-footer'')] [] [] buttons"

text \<open>Lines 111-118: the old footers go, the new one is appended unless it is empty.\<close>

definition replace_footer :: "node \<Rightarrow> node \<Rightarrow> node" where
  "replace_footer modalFooter el =
     (let el1 = (if length (jq_find sel_footer el) > 0 then jq_remove sel_footer el else el)
      in if length (inner_html modalFooter) > 0
         then jq_appendTo modalFooter sel_content el1
         else el1)"

text \<open>
  A throw inside the loop leaves the element as it was; the settings object had been
  allocated already.
\<close>

definition updateButtons ::
  "env \<Rightarrow> dialog_ctx \<Rightarrow> ButtonSpec list \<Rightarrow> dialog_state \<Rightarrow> outcome" where
  "updateButtons ev cx buttons st =
     (let (sref, h) = merge_settings cx [] (store st);
          settings = hget h sref
      in case build_buttons ev settings buttons of
           Inl e \<Rightarrow> Thrown e (st\<lparr>store := h\<rparr>)
         | Inr built \<Rightarrow>
             Done (st\<lparr>element := replace_footer (modal_footer built) (element st),
                      store := h\<rparr>))"

subsection \<open>dispatchDialogEvent (lines 121-132)\<close>

definition emit :: "effect \<Rightarrow> dialog_state \<Rightarrow> dialog_state" where
  "emit e st = st\<lparr>trace := trace st @ [e]\<rparr>"

definition window_trigger :: "string \<Rightarrow> nat option \<Rightarrow> dialog_state \<Rightarrow> dialog_state" where
  "window_trigger name settings st =
     emit (WindowTrigger name (map_option (hget (store st)) settings)) st"

definition dispatchDialogEvent ::
  "env \<Rightarrow> string \<Rightarrow> nat option \<Rightarrow> dialog_state \<Rightarrow> dialog_state" where
  "dispatchDialogEvent ev eventType settings st =
     (if \<not> has_DrupalDialogEvent ev
      then window_trigger (''dialog:'' @ eventType) settings st
      else emit (ElementDispatch eventType
                   (case settings of None \<Rightarrow> [] | Some r \<Rightarrow> hget (store st) r)) st)"

subsection \<open>openDialog (lines 134-197)\<close>

text \<open>
  Lines 141-146. A string argument of \<^verbatim>\<open>addClass\<close> names classes, and the elements
  of a non-empty array of objects convert to \<^verbatim>\<open>[object Object]\<close>; the model takes
  every other kind of value to name none.
\<close>

definition class_arg :: "jsval \<Rightarrow> string option" where
  "class_arg v =
     (case v of
        JStr s \<Rightarrow> Some s
      | JArr bs \<Rightarrow> if bs = [] then None else Some ''[object Object]''
      | _ \<Rightarrow> None)"

definition set_dialog_classes :: "obj \<Rightarrow> node \<Rightarrow> node" where
  "set_dialog_classes settings el =
     (if getprop settings ''dialogClasses'' \<noteq> JUndefined
      then jq_each sel_dialog
             (\<lambda>n. addClass (class_arg (getprop settings ''dialogClasses''))
                    (addClass (Some ''modal-dialog'') (removeAttr ''class'' n))) el
      else el)"

text \<open>Lines 151-164: the header is concatenated as markup, parsed and prepended.\<close>

definition header_title :: "obj \<Rightarrow> string" where
  \<open>header_title settings =
     (let heading = js_string (getprop settings ''dialogHeadingLevel'')
      in ''<h'' @ heading @ '' class="modal-title">''
         @ js_string (getprop settings ''title'') @ ''</h'' @ heading @ ''>'')\<close>

definition close_button :: "env \<Rightarrow> string" where
  \<open>close_button ev =
     ''<button type="button" class="close btn-close" data-bs-dismiss="modal" data-dismiss="modal" aria-label="''
     @ translate ev ''Close''
     @ ''"><span aria-hidden="true" class="visually-hidden">&times;</span></button>''\<close>

definition modal_header :: "env \<Rightarrow> obj \<Rightarrow> string" where
  \<open>modal_header ev settings =
     ''<div class="modal-header">''
     @ (if settingIsTrue (getprop settings ''dialogShowHeaderTitle'')
        then header_title settings else [])
     @ close_button ev\<close>

definition add_header :: "env \<Rightarrow> obj \<Rightarrow> node \<Rightarrow> node" where
  "add_header ev settings el =
     (if settingIsTrue (getprop settings ''dialogShowHeader'')
      then jq_prependTo (parse_html ev ''div'' (modal_header ev settings)) sel_content el
      else el)"

text \<open>Lines 166-169.\<close>

definition set_static :: "obj \<Rightarrow> node \<Rightarrow> node" where
  "set_static settings el =
     (if settingIsTrue (getprop settings ''dialogStatic'')
      then attr_set ''data-bs-keyboard'' ''false'' (attr_set ''data-bs-backdrop'' ''static'' el)
      else el)"

text \<open>Lines 172-179.\<close>

definition set_nonmodal :: "obj \<Rightarrow> node \<Rightarrow> node" where
  "set_nonmodal settings el =
     (if \<not> truthy (getprop settings ''modal'')
      then jq_each sel_dialog (css_set ''pointer-events'' ''auto'')
             (css_set ''pointer-events'' ''none''
               (attr_set ''data-bs-keyboard'' ''true''
                 (attr_set ''data-bs-backdrop'' ''false'' el)))
      else el)"

text \<open>
  Lines 181-186. Reading \<^verbatim>\<open>.length\<close> of undefined or null throws a TypeError; a
  boolean, a number and an object without that property have no length, and the
  comparison of undefined with 0 is false. The model covers button lists that are arrays
  of button descriptions: a non-empty string, an object with a \<^verbatim>\<open>length\<close> property and
  a function are outside it.
\<close>

definition footer_buttons :: "env \<Rightarrow> dialog_ctx \<Rightarrow> obj \<Rightarrow> dialog_state \<Rightarrow> outcome" where
  "footer_buttons ev cx settings st =
     (case getprop settings ''buttons'' of
        JUndefined \<Rightarrow> Thrown TypeError st
      | JNull \<Rightarrow> Thrown TypeError st
      | JBool b \<Rightarrow> Done st
      | JNum n \<Rightarrow> Done st
      | JStr s \<Rightarrow> if length s > 0 then Thrown OutsideModel st else Done st
      | JFun f \<Rightarrow> Thrown OutsideModel st
      | JArr buttons \<Rightarrow> if length buttons > 0 then updateButtons ev cx buttons st else Done st
      | JObj ob \<Rightarrow>
          if getprop ob ''length'' = JUndefined then Done st else Thrown OutsideModel st)"

definition auto_buttons :: "env \<Rightarrow> dialog_ctx \<Rightarrow> obj \<Rightarrow> dialog_state \<Rightarrow> outcome" where
  "auto_buttons ev cx settings st =
     (if settingIsTrue (getprop settings ''drupalAutoButtons'')
      then footer_buttons ev cx settings st
      else Done st)"

text \<open>Lines 188-191.\<close>

definition show_modal :: "env \<Rightarrow> nat \<Rightarrow> dialog_state \<Rightarrow> dialog_state" where
  "show_modal ev sref st =
     (if has_modal ev
      then emit (ModalCall ''show'') (emit (ModalInit (hget (store st) sref)) st)
      else st)"

text \<open>Lines 193-196.\<close>

definition after_create :: "env \<Rightarrow> nat \<Rightarrow> dialog_state \<Rightarrow> dialog_state" where
  "after_create ev sref st =
     (let originalResizeSetting = getprop (hget (store st) sref) ''autoResize'';
          st1 = st\<lparr>store := set_field sref ''autoResize'' (JBool False) (store st)\<rparr>;
          st2 = dispatchDialogEvent ev ''aftercreate'' (Some sref) st1
      in st2\<lparr>store := set_field sref ''autoResize'' originalResizeSetting (store st2)\<rparr>)"

definition openDialog :: "env \<Rightarrow> dialog_ctx \<Rightarrow> obj \<Rightarrow> dialog_state \<Rightarrow> outcome" where
  "openDialog ev cx call st =
     (let (sref, h) = merge_settings cx [call] (store st);
          st1 = st\<lparr>store := h\<rparr>;
          st2 = dispatchDialogEvent ev ''beforecreate'' (Some sref) st1;
          st3 = window_trigger ''dialog:beforecreate'' (Some sref) st2;
          settings = hget (store st3) sref;
          st4 = st3\<lparr>element := set_dialog_classes settings (element st3)\<rparr>;
          st5 = st4\<lparr>element := attr_set ''data-settings'' (stringify ev settings) (element st4)\<rparr>;
          st6 = st5\<lparr>element := add_header ev settings (element st5)\<rparr>;
          st7 = st6\<lparr>element := set_static settings (element st6)\<rparr>;
          st8 = st7\<lparr>element := set_nonmodal settings (element st7)\<rparr>
      in case auto_buttons ev cx settings st8 of
           Thrown e st9 \<Rightarrow> Thrown e st9
         | Done st9 \<Rightarrow> Done (after_create ev sref (show_modal ev sref st9)))"

subsection \<open>closeDialog (lines 199-205)\<close>

definition closeDialog :: "env \<Rightarrow> jsval \<Rightarrow> dialog_state \<Rightarrow> dialog_state" where
  "closeDialog ev val st =
     (let st1 = (if has_modal ev then emit (ModalCall ''hide'') st else st)
      in st1\<lparr>dialog_returnValue := val, dialog_open := False\<rparr>)"

subsection \<open>The handle (lines 66-72 and 207-229)\<close>

text \<open>The handle as \<^verbatim>\<open>Drupal.dialog(element, options)\<close> returns it.\<close>

definition Drupal_dialog :: "node \<Rightarrow> store \<Rightarrow> dialog_state" where
  "Drupal_dialog el h =
     \<lparr>dialog_open = False, dialog_returnValue = JUndefined, element = el, store = h, trace = []\<rparr>"

definition dialog_updateButtons ::
  "env \<Rightarrow> dialog_ctx \<Rightarrow> ButtonSpec list \<Rightarrow> dialog_state \<Rightarrow> outcome" where
  "dialog_updateButtons ev cx buttons st = updateButtons ev cx buttons st"

definition dialog_show :: "env \<Rightarrow> dialog_ctx \<Rightarrow> dialog_state \<Rightarrow> outcome" where
  "dialog_show ev cx st = openDialog ev cx [(''modal'', JBool False)] st"

definition dialog_showModal :: "env \<Rightarrow> dialog_ctx \<Rightarrow> dialog_state \<Rightarrow> outcome" where
  "dialog_showModal ev cx st = openDialog ev cx [(''modal'', JBool True)] st"

definition dialog_close :: "env \<Rightarrow> dialog_state \<Rightarrow> dialog_state" where
  "dialog_close ev st = closeDialog ev (JObj []) st"

text \<open>The listeners bound to the modal library's hide events (lines 221-227).\<close>

definition on_hide :: "env \<Rightarrow> dialog_state \<Rightarrow> dialog_state" where
  "on_hide ev st = dispatchDialogEvent ev ''beforeclose'' None st"

definition on_hidden :: "env \<Rightarrow> dialog_state \<Rightarrow> dialog_state" where
  "on_hidden ev st = dispatchDialogEvent ev ''afterclose'' None st"

text \<open>
  A run of the handle: any sequence of calls of its methods and of firings of the two
  listeners. A call that throws leaves the state it had reached, and the run goes on from
  there.
\<close>

datatype call =
    Show
  | ShowModal
  | Close
  | UpdateButtons "ButtonSpec list"
  | HideEvent
  | HiddenEvent

fun step :: "env \<Rightarrow> dialog_ctx \<Rightarrow> call \<Rightarrow> dialog_state \<Rightarrow> dialog_state" where
  "step ev cx Show st = state_of (dialog_show ev cx st)"
| "step ev cx ShowModal st = state_of (dialog_showModal ev cx st)"
| "step ev cx Close st = dialog_close ev st"
| "step ev cx (UpdateButtons buttons) st = state_of (dialog_updateButtons ev cx buttons st)"
| "step ev cx HideEvent st = on_hide ev st"
| "step ev cx HiddenEvent st = on_hidden ev st"

definition run :: "env \<Rightarrow> dialog_ctx \<Rightarrow> call list \<Rightarrow> dialog_state \<Rightarrow> dialog_state" where
  "run ev cx calls st = foldl (\<lambda>s c. step ev cx c s) st calls"

section \<open>Notions used in the statements\<close>

text \<open>The merged settings object that a call of \<^verbatim>\<open>openDialog\<close> works with.\<close>

definition merged :: "dialog_ctx \<Rightarrow> obj \<Rightarrow> store \<Rightarrow> obj" where
  "merged cx call h = hget (snd (merge_settings cx [call] h)) (length h)"

text \<open>The state of \<^verbatim>\<open>openDialog\<close> when it reaches line 181.\<close>

definition prepared :: "env \<Rightarrow> dialog_ctx \<Rightarrow> obj \<Rightarrow> dialog_state \<Rightarrow> dialog_state" where
  "prepared ev cx call st =
     (let sref = length (store st);
          settings = merged cx call (store st);
          st3 = window_trigger ''dialog:beforecreate'' (Some sref)
                  (dispatchDialogEvent ev ''beforecreate'' (Some sref)
                     (st\<lparr>store := snd (merge_settings cx [call] (store st))\<rparr>))
      in st3\<lparr>element :=
               set_nonmodal settings (set_static settings (add_header ev settings
                 (attr_set ''data-settings'' (stringify ev settings)
                    (set_dialog_classes settings (element st)))))\<rparr>)"

text \<open>An option counts as enabled when it is the boolean true or the string \<^verbatim>\<open>true\<close>.\<close>

definition enabled :: "jsval \<Rightarrow> bool" where
  "enabled v \<longleftrightarrow> v = JBool True \<or> v = JStr ''true''"

text \<open>
  The element as \<^verbatim>\<open>openDialog\<close> is to leave it before it turns to the footer, written
  with \<open>enabled\<close> for each of the options that switch a step on: the header is there when
  \<^verbatim>\<open>dialogShowHeader\<close> is enabled, the title is in it when \<^verbatim>\<open>dialogShowHeaderTitle\<close>
  is enabled, and the two attributes are set when \<^verbatim>\<open>dialogStatic\<close> is enabled.
\<close>

definition header_markup :: "env \<Rightarrow> obj \<Rightarrow> string" where
  \<open>header_markup ev settings =
     ''<div class="modal-header">''
     @ (if enabled (getprop settings ''dialogShowHeaderTitle'') then header_title settings else [])
     @ close_button ev\<close>

definition element_by_options :: "env \<Rightarrow> obj \<Rightarrow> node \<Rightarrow> node" where
  "element_by_options ev settings el =
     (let e1 = attr_set ''data-settings'' (stringify ev settings) (set_dialog_classes settings el);
          e2 = (if enabled (getprop settings ''dialogShowHeader'')
                then jq_prependTo (parse_html ev ''div'' (header_markup ev settings)) sel_content e1
                else e1);
          e3 = (if enabled (getprop settings ''dialogStatic'')
                then attr_set ''data-bs-keyboard'' ''false''
                       (attr_set ''data-bs-backdrop'' ''static'' e2)
                else e2)
      in set_nonmodal settings e3)"

text \<open>The settings carried by an aftercreate event, on either way of dispatch.\<close>

fun aftercreate_settings :: "effect \<Rightarrow> obj option" where
  "aftercreate_settings (WindowTrigger name payload) =
     (if name = ''dialog:aftercreate'' then payload else None)"
| "aftercreate_settings (ElementDispatch name settings) =
     (if name = ''aftercreate'' then Some settings else None)"
| "aftercreate_settings (ModalInit settings) = None"
| "aftercreate_settings (ModalCall verb) = None"

text \<open>A node that carries a class itself or has a descendant that does.\<close>

fun within_class :: "string \<Rightarrow> node \<Rightarrow> bool" where
  "within_class c (Text s) = False"
| "within_class c (Elem t ats sty hs ks) = (class_in c ats \<or> list_ex (within_class c) ks)"

text \<open>
  A concrete dialog for the examples: the expected skeleton with a body and an old footer,
  the shipped defaults at address 0 and the options at address 1. The host of the
  examples has the modal plugin, parses every string to one text node and accepts the
  attribute names without a blank.
\<close>

definition example_element :: node where
  "example_element =
     Elem ''div'' [(''class'', ''modal'')] [] []
       [Elem ''div'' [(''class'', ''modal-dialog'')] [] []
          [Elem ''div'' [(''class'', ''modal-content'')] [] []
             [Elem ''div'' [(''class'', ''modal-body'')] [] [] [],
              Elem ''div'' [(''class'', ''modal-footer'')] [] [] []]]]"

definition example_env :: env where
  "example_env =
     \<lparr>has_modal = True, has_DrupalDialogEvent = False,
      translate = (\<lambda>s. s), stringify = (\<lambda>ob. ''{}''),
      parse_html = (\<lambda>t s. [Text s]), valid_attr_name = (\<lambda>s. s \<noteq> [] \<and> CHR '' '' \<notin> set s)\<rparr>"

definition example_ctx :: dialog_ctx where
  "example_ctx = \<lparr>defaults_ref = 0, options_ref = Some 1\<rparr>"

definition example_options :: obj where
  "example_options = [(''title'', JStr ''Hi''), (''autoResize'', JBool True)]"

definition example_state :: dialog_state where
  "example_state = Drupal_dialog example_element [dialog_defaults, example_options]"

text \<open>
  A second dialog for the examples, whose options use the string \<^verbatim>\<open>true\<close> and the
  number 1.
\<close>

definition switch_options :: obj where
  "switch_options = [(''dialogStatic'', JStr ''true''), (''dialogShowHeaderTitle'', JNum 1)]"

definition switch_state :: dialog_state where
  "switch_state = Drupal_dialog example_element [dialog_defaults, switch_options]"

text \<open>
  A class name is a non-empty string without white space. A class list has a
  \<^verbatim>\<open>btn-*\<close> token when one of its tokens starts with \<^verbatim>\<open>btn-\<close>.
\<close>

definition is_class_name :: "string \<Rightarrow> bool" where
  "is_class_name t \<longleftrightarrow> t \<noteq> [] \<and> list_all (\<lambda>c. \<not> is_space c) t"

definition has_btn_token :: "string \<Rightarrow> bool" where
  "has_btn_token s = list_ex (\<lambda>t. take 4 t = ''btn-'') (class_tokens s)"

text \<open>Button descriptions for the examples.\<close>

definition ok_button :: ButtonSpec where
  "ok_button = ButtonSpec (Some ''OK'') None None (Some ''fn'')"

definition ok_node :: node where
  "ok_node =
     Elem ''button'' [(''type'', ''button'')] [] [ClickForward (Some ''fn'')] [Text ''OK'']"

definition plain_button :: ButtonSpec where
  "plain_button = ButtonSpec (Some ''OK'') None None None"

definition my_button :: ButtonSpec where
  "my_button = ButtonSpec (Some ''OK'') (Some ''my-button'') None None"

definition secondary_button :: ButtonSpec where
  "secondary_button = ButtonSpec (Some ''OK'') (Some ''btn-secondary'') None None"

definition hyphen_button :: ButtonSpec where
  "hyphen_button = ButtonSpec (Some ''OK'') (Some ''x-btn-y'') None None"

section \<open>The phases of openDialog\<close>

lemma fst_merge_settings: "fst (merge_settings cx c h) = length h"
  by (simp add: merge_settings_def Let_def)

lemma store_emit: "store (emit e st) = store st"
  by (simp add: emit_def)

lemma store_window_trigger: "store (window_trigger n r st) = store st"
  by (simp add: window_trigger_def emit_def)

lemma store_dispatch: "store (dispatchDialogEvent ev ty r st) = store st"
  by (simp add: dispatchDialogEvent_def window_trigger_def emit_def)

lemma element_window_trigger: "element (window_trigger n r st) = element st"
  by (simp add: window_trigger_def emit_def)

lemma element_dispatch: "element (dispatchDialogEvent ev ty r st) = element st"
  by (simp add: dispatchDialogEvent_def window_trigger_def emit_def)

lemma openDialog_phases:
  "openDialog ev cx call st =
     (case auto_buttons ev cx (merged cx call (store st)) (prepared ev cx call st) of
        Thrown e s \<Rightarrow> Thrown e s
      | Done s \<Rightarrow>
          Done (after_create ev (length (store st)) (show_modal ev (length (store st)) s)))"
proof -
  obtain sref h where m: "merge_settings cx [call] (store st) = (sref, h)"
    by (cases "merge_settings cx [call] (store st)")
  from m have "sref = length (store st)"
    using fst_merge_settings [of cx "[call]" "store st"] by simp
  with m have m': "merge_settings cx [call] (store st) = (length (store st), h)"
    by simp
  show ?thesis
    unfolding openDialog_def prepared_def merged_def m' Let_def prod.case
    by (simp add: store_window_trigger store_dispatch element_window_trigger element_dispatch)
qed

text \<open>The example dialog: its merged settings, and that showModal returns on it.\<close>

lemmas example_defs =
  example_element_def example_env_def example_ctx_def example_options_def example_state_def
  Drupal_dialog_def

lemma example_merged:
  "merged example_ctx [(''modal'', JBool True)] (store example_state) =
     dialog_defaults @ [(''title'', JStr ''Hi''), (''autoResize'', JBool True), (''modal'', JBool True)]"
  by (simp add: merged_def merge_settings_def jq_extend_def extend_obj_def hget_def
        dialog_defaults_def example_defs)

lemma example_returns:
  "\<exists>st'. openDialog example_env example_ctx [(''modal'', JBool True)] example_state = Done st'"
  by (simp add: openDialog_phases auto_buttons_def settingIsTrue_def example_merged getprop_def
        dialog_defaults_def)

section \<open>The open flag\<close>

lemma open_dispatch: "dialog_open (dispatchDialogEvent ev ty r st) = dialog_open st"
  by (simp add: dispatchDialogEvent_def window_trigger_def emit_def)

lemma open_window_trigger: "dialog_open (window_trigger n r st) = dialog_open st"
  by (simp add: window_trigger_def emit_def)

lemma open_updateButtons: "dialog_open (state_of (updateButtons ev cx bs st)) = dialog_open st"
  by (simp add: updateButtons_def Let_def split: prod.splits sum.splits)

lemma open_auto_buttons: "dialog_open (state_of (auto_buttons ev cx s st)) = dialog_open st"
  by (simp add: auto_buttons_def footer_buttons_def open_updateButtons split: jsval.splits)

lemma open_show_modal: "dialog_open (show_modal ev r st) = dialog_open st"
  by (simp add: show_modal_def emit_def)

lemma open_after_create: "dialog_open (after_create ev r st) = dialog_open st"
  by (simp add: after_create_def Let_def open_dispatch)

lemma open_prepared: "dialog_open (prepared ev cx call st) = dialog_open st"
  by (simp add: prepared_def Let_def open_dispatch open_window_trigger)

lemma open_openDialog: "dialog_open (state_of (openDialog ev cx call st)) = dialog_open st"
proof (cases "auto_buttons ev cx (merged cx call (store st)) (prepared ev cx call st)")
  case (Done s)
  then have "dialog_open s = dialog_open st"
    using open_auto_buttons [of ev cx "merged cx call (store st)" "prepared ev cx call st"]
    by (simp add: open_prepared)
  with Done show ?thesis
    by (simp add: openDialog_phases open_after_create open_show_modal)
next
  case (Thrown e s)
  then have "dialog_open s = dialog_open st"
    using open_auto_buttons [of ev cx "merged cx call (store st)" "prepared ev cx call st"]
    by (simp add: open_prepared)
  with Thrown show ?thesis
    by (simp add: openDialog_phases)
qed

lemma open_step: "\<not> dialog_open st \<Longrightarrow> \<not> dialog_open (step ev cx c st)"
  by (cases c)
     (simp_all add: dialog_show_def dialog_showModal_def dialog_close_def closeDialog_def
        dialog_updateButtons_def on_hide_def on_hidden_def open_openDialog
        open_updateButtons open_dispatch)

lemma open_run: "\<not> dialog_open st \<Longrightarrow> \<not> dialog_open (run ev cx calls st)"
  unfolding run_def
  by (induction calls arbitrary: st) (simp_all add: open_step)

text \<open>
  Claim C4. The open flag is false in the handle that \<^verbatim>\<open>Drupal.dialog\<close> returns and in
  every state reached from it by any sequence of calls of show, showModal, close and
  updateButtons and of firings of the hide listeners; show and showModal leave the flag as
  it was, whether they return or throw.
\<close>

theorem open_never_true:
  "dialog_open (Drupal_dialog el h) = False
   \<and> dialog_open (run ev cx calls (Drupal_dialog el h)) = False
   \<and> dialog_open (state_of (dialog_show ev cx st)) = dialog_open st
   \<and> dialog_open (state_of (dialog_showModal ev cx st)) = dialog_open st"
proof -
  have "\<not> dialog_open (Drupal_dialog el h)"
    by (simp add: Drupal_dialog_def)
  then show ?thesis
    using open_run [of "Drupal_dialog el h" ev cx calls]
    by (simp add: dialog_show_def dialog_showModal_def open_openDialog)
qed

section \<open>Closing\<close>

text \<open>
  Claim C3. For every value, \<^verbatim>\<open>closeDialog(value)\<close> leaves the open flag false and the
  return value equal to that value, whether or not the element has the modal capability
  (the statement holds for every host).
\<close>

theorem closeDialog_stores_value:
  "dialog_open (closeDialog ev v st) = False \<and> dialog_returnValue (closeDialog ev v st) = v"
  by (simp add: closeDialog_def)


section \<open>Errors\<close>

text \<open>
  Claim C2 says that no operation ever throws. The source reads \<^verbatim>\<open>settings.buttons.length\<close>
  whenever \<^verbatim>\<open>drupalAutoButtons\<close> is enabled, without the test for undefined that it
  makes on \<^verbatim>\<open>dialogClasses\<close>, \<^verbatim>\<open>attributes\<close>, \<^verbatim>\<open>click\<close> and the modal plugin:
  with the shipped defaults and the options \<^verbatim>\<open>{drupalAutoButtons: true}\<close>, showModal
  throws a TypeError, on every element and every host.
\<close>

theorem showModal_throws_without_buttons:
  "\<exists>st'. dialog_showModal ev \<lparr>defaults_ref = 0, options_ref = Some 1\<rparr>
           (Drupal_dialog el [dialog_defaults, [(''drupalAutoButtons'', JBool True)]])
         = Thrown TypeError st'"
proof -
  have "merged \<lparr>defaults_ref = 0, options_ref = Some 1\<rparr> [(''modal'', JBool True)]
          [dialog_defaults, [(''drupalAutoButtons'', JBool True)]] =
        dialog_defaults @ [(''drupalAutoButtons'', JBool True), (''modal'', JBool True)]"
    by (simp add: merged_def merge_settings_def jq_extend_def extend_obj_def hget_def
          dialog_defaults_def)
  then show ?thesis
    by (simp add: dialog_showModal_def openDialog_phases Drupal_dialog_def auto_buttons_def
          footer_buttons_def settingIsTrue_def getprop_def dialog_defaults_def)
qed

section \<open>The store and the merge\<close>


lemma length_merge_settings: "length (snd (merge_settings cx c h)) = Suc (length h)"
  by (simp add: merge_settings_def Let_def jq_extend_def)

lemma hget_merge_settings_old:
  "r < length h \<Longrightarrow> hget (snd (merge_settings cx c h)) r = hget h r"
  by (simp add: merge_settings_def Let_def jq_extend_def hget_def nth_append)

lemma getprop_update: "getprop (AList.update k v ob) k' = (if k' = k then v else getprop ob k')"
  by (simp add: getprop_def update_conv')

lemma getprop_Cons: "getprop ((k', v) # ob) k = (if k = k' then v else getprop ob k)"
  by (simp add: getprop_def)

lemma getprop_Nil: "getprop [] k = JUndefined"
  by (simp add: getprop_def)

lemma extend_obj_absent:
  "k \<notin> fst ` set src \<Longrightarrow> getprop (extend_obj t src) k = getprop t k"
  unfolding extend_obj_def
  by (induction src arbitrary: t) (auto simp: getprop_update)

lemma extend_obj_distinct:
  "distinct (map fst src) \<Longrightarrow>
   getprop (extend_obj t src) k =
     (if k \<noteq> ''__proto__'' \<and> getprop src k \<noteq> JUndefined then getprop src k else getprop t k)"
proof (induction src arbitrary: t)
  case Nil
  then show ?case by (simp add: extend_obj_def getprop_Nil)
next
  case (Cons p src)
  obtain k' v where p: "p = (k', v)" by (cases p)
  from Cons.prems p have d: "distinct (map fst src)" and nk: "k' \<notin> fst ` set src"
    by auto
  have step: "extend_obj t (p # src) =
      extend_obj (if k' = ''__proto__'' \<or> v = JUndefined then t else AList.update k' v t) src"
    by (simp add: extend_obj_def p)
  show ?case
  proof (cases "k = k'")
    case True
    have "getprop (extend_obj t (p # src)) k =
        getprop (if k' = ''__proto__'' \<or> v = JUndefined then t else AList.update k' v t) k"
      unfolding step using nk True by (simp add: extend_obj_absent)
    then show ?thesis
      using True p by (auto simp: getprop_update getprop_Cons)
  next
    case False
    then show ?thesis
      unfolding step using Cons.IH [OF d] p
      by (auto simp: getprop_update getprop_Cons)
  qed
qed

lemma merged_unfold:
  "merged cx call h =
     extend_obj
       (case options_ref cx of
          None \<Rightarrow> extend_obj [] (hget h (defaults_ref cx))
        | Some r \<Rightarrow> extend_obj (extend_obj [] (hget h (defaults_ref cx))) (hget h r))
       call"
  by (simp add: merged_def merge_settings_def Let_def jq_extend_def hget_def nth_append
        split: option.splits)

lemma store_updateButtons:
  "store (state_of (updateButtons ev cx bs st)) = snd (merge_settings cx [] (store st))"
  by (simp add: updateButtons_def Let_def split: prod.splits sum.splits)

lemma store_auto_buttons:
  "store (state_of (auto_buttons ev cx s st)) = store st
   \<or> store (state_of (auto_buttons ev cx s st)) = snd (merge_settings cx [] (store st))"
  by (simp add: auto_buttons_def footer_buttons_def store_updateButtons split: jsval.splits)

lemma store_show_modal: "store (show_modal ev r st) = store st"
  by (simp add: show_modal_def emit_def)

lemma store_after_create:
  "store (after_create ev r st) =
     set_field r ''autoResize'' (getprop (hget (store st) r) ''autoResize'')
       (set_field r ''autoResize'' (JBool False) (store st))"
  by (simp add: after_create_def Let_def store_dispatch)

lemma store_prepared:
  "store (prepared ev cx call st) = snd (merge_settings cx [call] (store st))"
  by (simp add: prepared_def Let_def store_dispatch store_window_trigger)

lemma hget_set_field:
  "hget (set_field r k v h) r' =
     (if r' = r \<and> r < length h then AList.update k v (hget h r) else hget h r')"
  by (simp add: set_field_def hget_def)

lemma length_set_field: "length (set_field r k v h) = length h"
  by (simp add: set_field_def)

text \<open>An object that exists before a call is the same after it, unless it is the merged one.\<close>

lemma auto_buttons_keeps:
  "r < length (store st) \<Longrightarrow> hget (store (state_of (auto_buttons ev cx s st))) r = hget (store st) r"
  using store_auto_buttons [of ev cx s st] by (auto simp: hget_merge_settings_old)

lemma auto_buttons_length:
  "length (store st) \<le> length (store (state_of (auto_buttons ev cx s st)))"
  using store_auto_buttons [of ev cx s st] by (auto simp: length_merge_settings)

lemma openDialog_keeps:
  assumes "r < length (store st)"
  shows "hget (store (state_of (openDialog ev cx call st))) r = hget (store st) r"
proof -
  let ?p = "prepared ev cx call st"
  let ?a = "auto_buttons ev cx (merged cx call (store st)) ?p"
  have lp: "length (store ?p) = Suc (length (store st))"
    by (simp add: store_prepared length_merge_settings)
  with assms have rp: "r < length (store ?p)" by simp
  have a: "hget (store (state_of ?a)) r = hget (store st) r"
    using auto_buttons_keeps [OF rp, of ev cx "merged cx call (store st)"] assms
    by (simp add: store_prepared hget_merge_settings_old)
  show ?thesis
  proof (cases ?a)
    case (Thrown e s)
    with a show ?thesis by (simp add: openDialog_phases)
  next
    case (Done s)
    with a assms show ?thesis
      by (simp add: openDialog_phases store_after_create store_show_modal hget_set_field)
  qed
qed

text \<open>
  Claim C7. The merge of \<^verbatim>\<open>openDialog\<close> and of \<^verbatim>\<open>updateButtons\<close> writes a new object
  only: the defaults object \<^verbatim>\<open>drupalSettings.dialog\<close> is the same before and after the
  merge, after a whole call of \<^verbatim>\<open>openDialog\<close> and after \<^verbatim>\<open>updateButtons\<close>
  (returning or throwing). The merged object is the empty object extended by the defaults, then
  by the constructor's options if there are any, then by the settings of the call; each
  extension is shallow and the later source wins: a property that the source defines
  replaces the target's, every other property of the target stays.
\<close>

theorem merge_keeps_defaults:
  assumes "defaults_ref cx < length (store st)"
  shows "hget (snd (merge_settings cx call (store st))) (defaults_ref cx)
           = hget (store st) (defaults_ref cx)
         \<and> hget (store (state_of (openDialog ev cx c st))) (defaults_ref cx)
           = hget (store st) (defaults_ref cx)
         \<and> hget (store (state_of (updateButtons ev cx bs st))) (defaults_ref cx)
           = hget (store st) (defaults_ref cx)
         \<and> merged cx c (store st) =
             extend_obj
               (case options_ref cx of
                  None \<Rightarrow> extend_obj [] (hget (store st) (defaults_ref cx))
                | Some r \<Rightarrow>
                    extend_obj (extend_obj [] (hget (store st) (defaults_ref cx)))
                      (hget (store st) r))
               c
         \<and> (distinct (map fst src) \<longrightarrow>
              getprop (extend_obj t src) k =
                (if k \<noteq> ''__proto__'' \<and> getprop src k \<noteq> JUndefined
                 then getprop src k else getprop t k))"
  using assms
  by (simp add: hget_merge_settings_old openDialog_keeps store_updateButtons merged_unfold
        extend_obj_distinct)

theorem merge_keeps_defaults_witness:
  "defaults_ref example_ctx < length (store example_state)
   \<and> hget (store (state_of (openDialog example_env example_ctx [(''modal'', JBool True)]
                               example_state))) 0 = dialog_defaults
   \<and> hget (store (state_of (updateButtons example_env example_ctx [] example_state))) 0
       = dialog_defaults"
proof -
  have h: "defaults_ref example_ctx < length (store example_state)"
    by (simp add: example_defs)
  have d: "hget (store example_state) (defaults_ref example_ctx) = dialog_defaults"
    by (simp add: example_defs hget_def)
  have z: "defaults_ref example_ctx = 0"
    by (simp add: example_defs)
  show ?thesis
    using h merge_keeps_defaults [OF h, of "[]" example_env "[(''modal'', JBool True)]" "[]"]
    unfolding d unfolding z by simp
qed

section \<open>The trace\<close>

lemma trace_prepared:
  "\<exists>e1 e2. trace (prepared ev cx call st) = trace st @ [e1, e2]
     \<and> aftercreate_settings e1 = None \<and> aftercreate_settings e2 = None"
  by (simp add: prepared_def Let_def dispatchDialogEvent_def window_trigger_def emit_def)

lemma trace_updateButtons: "trace (state_of (updateButtons ev cx bs st)) = trace st"
  by (simp add: updateButtons_def Let_def split: prod.splits sum.splits)

lemma trace_auto_buttons: "trace (state_of (auto_buttons ev cx s st)) = trace st"
  by (simp add: auto_buttons_def footer_buttons_def trace_updateButtons split: jsval.splits)

lemma trace_show_modal:
  "\<exists>es. trace (show_modal ev r st) = trace st @ es
     \<and> List.map_filter aftercreate_settings es = []"
  by (simp add: show_modal_def emit_def List.map_filter_simps)

lemma trace_after_create:
  "r < length (store st) \<Longrightarrow>
   \<exists>e snap. trace (after_create ev r st) = trace st @ [e]
     \<and> aftercreate_settings e = Some snap \<and> getprop snap ''autoResize'' = JBool False"
  by (simp add: after_create_def Let_def dispatchDialogEvent_def window_trigger_def emit_def
        hget_set_field getprop_update)

lemma map_filter_append:
  "List.map_filter f (xs @ ys) = List.map_filter f xs @ List.map_filter f ys"
  by (simp add: List.map_filter_def)

text \<open>
  Claim C8. When \<^verbatim>\<open>openDialog\<close> returns, exactly one aftercreate event was sent during
  the call, the settings it carried had \<^verbatim>\<open>autoResize\<close> false, and the settings object of
  the call has \<^verbatim>\<open>autoResize\<close> back at the value that the merge gave it.
\<close>

theorem autoResize_suppressed_then_restored:
  assumes "openDialog ev cx call st = Done st'"
  shows "(\<exists>snap. List.map_filter aftercreate_settings (drop (length (trace st)) (trace st')) = [snap]
            \<and> getprop snap ''autoResize'' = JBool False)
         \<and> getprop (hget (store st') (length (store st))) ''autoResize''
           = getprop (merged cx call (store st)) ''autoResize''"
proof -
  let ?r = "length (store st)"
  let ?p = "prepared ev cx call st"
  let ?a = "auto_buttons ev cx (merged cx call (store st)) ?p"
  from assms obtain s where a: "?a = Done s"
    and st': "st' = after_create ev ?r (show_modal ev ?r s)"
    by (cases ?a) (auto simp: openDialog_phases)
  have s: "s = state_of ?a" using a by simp
  have lp: "length (store ?p) = Suc ?r"
    by (simp add: store_prepared length_merge_settings)
  have ls: "?r < length (store s)"
    unfolding s using auto_buttons_length [of ?p ev cx "merged cx call (store st)"] lp by simp
  have hs: "hget (store s) ?r = merged cx call (store st)"
    unfolding s using auto_buttons_keeps [of ?r ?p ev cx "merged cx call (store st)"] lp
    by (simp add: store_prepared merged_def)
  obtain e1 e2 where tp: "trace ?p = trace st @ [e1, e2]"
    and n1: "aftercreate_settings e1 = None" and n2: "aftercreate_settings e2 = None"
    using trace_prepared by blast
  have ts: "trace s = trace st @ [e1, e2]"
    unfolding s by (simp add: trace_auto_buttons tp)
  obtain es where tm: "trace (show_modal ev ?r s) = trace s @ es"
    and nm: "List.map_filter aftercreate_settings es = []"
    using trace_show_modal by blast
  have "?r < length (store (show_modal ev ?r s))"
    using ls by (simp add: store_show_modal)
  then obtain e snap where ta: "trace st' = trace (show_modal ev ?r s) @ [e]"
    and ea: "aftercreate_settings e = Some snap"
    and sa: "getprop snap ''autoResize'' = JBool False"
    unfolding st' using trace_after_create by blast
  have "drop (length (trace st)) (trace st') = [e1, e2] @ es @ [e]"
    by (simp add: ta tm ts)
  then have "List.map_filter aftercreate_settings (drop (length (trace st)) (trace st')) = [snap]"
    using n1 n2 nm ea by (simp add: map_filter_append List.map_filter_simps)
  moreover have "getprop (hget (store st') ?r) ''autoResize''
      = getprop (merged cx call (store st)) ''autoResize''"
    unfolding st' using ls hs
    by (simp add: store_after_create store_show_modal hget_set_field length_set_field
          getprop_update)
  ultimately show ?thesis using sa by blast
qed

theorem autoResize_witness:
  "\<exists>st'. openDialog example_env example_ctx [(''modal'', JBool True)] example_state = Done st'
     \<and> (\<exists>snap. List.map_filter aftercreate_settings
                  (drop (length (trace example_state)) (trace st')) = [snap]
               \<and> getprop snap ''autoResize'' = JBool False)
     \<and> getprop (hget (store st') (length (store example_state))) ''autoResize'' = JBool True"
proof -
  obtain st' where r:
    "openDialog example_env example_ctx [(''modal'', JBool True)] example_state = Done st'"
    using example_returns by blast
  have m: "getprop (merged example_ctx [(''modal'', JBool True)] (store example_state))
             ''autoResize'' = JBool True"
    by (simp add: example_merged getprop_def dialog_defaults_def)
  show ?thesis
    using r autoResize_suppressed_then_restored [OF r] unfolding m by blast
qed

section \<open>Attributes and styles of the bound element\<close>

lemma attr_get_below: "attr_get k (below f el) = attr_get k el"
  by (cases el) (simp_all add: below_def)

lemma css_get_below: "css_get k (below f el) = css_get k el"
  by (cases el) (simp_all add: below_def)

lemma is_Elem_below: "is_Elem (below f el) = is_Elem el"
  by (cases el) (simp_all add: below_def)

lemma attr_get_attr_set:
  "attr_get k (attr_set k' v el) = (if is_Elem el \<and> k = k' then Some v else attr_get k el)"
  by (cases el) (simp_all add: update_conv')

lemma css_get_attr_set: "css_get k (attr_set k' v el) = css_get k el"
  by (cases el) simp_all

lemma attr_get_css_set: "attr_get k (css_set k' v el) = attr_get k el"
  by (cases el) simp_all

lemma css_get_css_set:
  "css_get k (css_set k' v el) = (if is_Elem el \<and> k = k' then Some v else css_get k el)"
  by (cases el) (simp_all add: update_conv')

lemma is_Elem_attr_set: "is_Elem (attr_set k v el) = is_Elem el"
  by (cases el) simp_all

lemma is_Elem_css_set: "is_Elem (css_set k v el) = is_Elem el"
  by (cases el) simp_all

lemmas root_simps =
  attr_get_below css_get_below is_Elem_below attr_get_attr_set css_get_attr_set
  attr_get_css_set css_get_css_set is_Elem_attr_set is_Elem_css_set

lemma attr_get_replace_footer: "attr_get k (replace_footer f el) = attr_get k el"
  by (simp add: replace_footer_def Let_def jq_remove_def jq_appendTo_def root_simps)

lemma css_get_replace_footer: "css_get k (replace_footer f el) = css_get k el"
  by (simp add: replace_footer_def Let_def jq_remove_def jq_appendTo_def root_simps)

lemma extend_obj_Nil: "extend_obj t [] = t"
  by (simp add: extend_obj_def)

lemma merge_settings_no_call: "merge_settings cx [[]] h = merge_settings cx [] h"
  by (simp add: merge_settings_def Let_def jq_extend_def extend_obj_Nil)

lemma updateButtons_cases:
  "updateButtons ev cx bs st =
     (case build_buttons ev (merged cx [] (store st)) bs of
        Inl e \<Rightarrow> Thrown e (st\<lparr>store := snd (merge_settings cx [] (store st))\<rparr>)
      | Inr ns \<Rightarrow>
          Done (st\<lparr>element := replace_footer (modal_footer ns) (element st),
                   store := snd (merge_settings cx [] (store st))\<rparr>))"
  using fst_merge_settings [of cx "[]" "store st"]
  by (auto simp: updateButtons_def Let_def merged_def merge_settings_no_call
        split: prod.splits sum.splits)

lemma element_updateButtons:
  "element (state_of (updateButtons ev cx bs st)) =
     (case build_buttons ev (merged cx [] (store st)) bs of
        Inl e \<Rightarrow> element st
      | Inr ns \<Rightarrow> replace_footer (modal_footer ns) (element st))"
  by (simp add: updateButtons_cases split: sum.splits)

lemma attr_get_updateButtons:
  "attr_get k (element (state_of (updateButtons ev cx bs st))) = attr_get k (element st)"
  by (simp add: element_updateButtons attr_get_replace_footer split: sum.splits)

lemma css_get_updateButtons:
  "css_get k (element (state_of (updateButtons ev cx bs st))) = css_get k (element st)"
  by (simp add: element_updateButtons css_get_replace_footer split: sum.splits)

lemma attr_get_auto_buttons:
  "attr_get k (element (state_of (auto_buttons ev cx s st))) = attr_get k (element st)"
  by (simp add: auto_buttons_def footer_buttons_def attr_get_updateButtons split: jsval.splits)

lemma css_get_auto_buttons:
  "css_get k (element (state_of (auto_buttons ev cx s st))) = css_get k (element st)"
  by (simp add: auto_buttons_def footer_buttons_def css_get_updateButtons split: jsval.splits)

lemma element_show_modal: "element (show_modal ev r st) = element st"
  by (simp add: show_modal_def emit_def)

lemma element_after_create: "element (after_create ev r st) = element st"
  by (simp add: after_create_def Let_def element_dispatch)

lemma element_prepared:
  "element (prepared ev cx call st) =
     (let settings = merged cx call (store st)
      in set_nonmodal settings (set_static settings (add_header ev settings
           (attr_set ''data-settings'' (stringify ev settings)
              (set_dialog_classes settings (element st))))))"
  by (simp add: prepared_def Let_def)

lemma element_openDialog:
  "element (state_of (openDialog ev cx call st)) =
     element (state_of (auto_buttons ev cx (merged cx call (store st)) (prepared ev cx call st)))"
  by (cases "auto_buttons ev cx (merged cx call (store st)) (prepared ev cx call st)")
     (simp_all add: openDialog_phases element_after_create element_show_modal)

lemma merged_call_value:
  "v \<noteq> JUndefined \<Longrightarrow> k \<noteq> ''__proto__'' \<Longrightarrow> getprop (merged cx [(k, v)] h) k = v"
  by (simp add: merged_unfold extend_obj_def getprop_update)

lemma attr_get_pre_static:
  "k = ''data-bs-backdrop'' \<or> k = ''data-bs-keyboard'' \<Longrightarrow>
   attr_get k (add_header ev s (attr_set ''data-settings'' x (set_dialog_classes s el)))
     = attr_get k el"
  by (auto simp: add_header_def set_dialog_classes_def jq_prependTo_def jq_each_def root_simps)

lemma is_Elem_pre_nonmodal:
  "is_Elem (set_static s (add_header ev s (attr_set ''data-settings'' x (set_dialog_classes s el))))
     = is_Elem el"
  by (simp add: set_static_def add_header_def set_dialog_classes_def jq_prependTo_def
        jq_each_def root_simps)

lemma nonmodal_root:
  assumes "is_Elem el" and "\<not> truthy (getprop s ''modal'')"
  shows "attr_get ''data-bs-backdrop'' (set_nonmodal s el) = Some ''false''"
    and "attr_get ''data-bs-keyboard'' (set_nonmodal s el) = Some ''true''"
    and "css_get ''pointer-events'' (set_nonmodal s el) = Some ''none''"
  using assms by (simp_all add: set_nonmodal_def jq_each_def root_simps)

lemma modal_root:
  assumes "truthy (getprop s ''modal'')" and "\<not> settingIsTrue (getprop s ''dialogStatic'')"
    and "k = ''data-bs-backdrop'' \<or> k = ''data-bs-keyboard''"
  shows "attr_get k (set_nonmodal s (set_static s
           (add_header ev s (attr_set ''data-settings'' x (set_dialog_classes s el)))))
         = attr_get k el"
  using assms attr_get_pre_static [of k ev s x el]
  by (simp add: set_nonmodal_def set_static_def)

section \<open>Selections in a changed tree\<close>

lemma concat_map_single: "(\<And>x. x \<in> set ks \<Longrightarrow> f x = [x]) \<Longrightarrow> concat (map f ks) = ks"
  by (induction ks) simp_all

lemma concat_map_replicate:
  "(\<And>x. x \<in> set ks \<Longrightarrow> f x = replicate (length (g x)) y) \<Longrightarrow>
   concat (map f ks) = replicate (length (concat (map g ks))) y"
  by (induction ks) (simp_all add: replicate_add)

lemma find_in_remove_in_same:
  "y \<in> set (remove_in sel anc x) \<Longrightarrow> find_in sel anc y = []"
proof (induction x arbitrary: anc y)
  case (Text s)
  then show ?case by simp
next
  case (Elem t ats sty hs ks)
  show ?case
  proof (cases "matches sel anc ats")
    case True
    with Elem.prems show ?thesis by simp
  next
    case False
    with Elem.prems
    have y: "y = Elem t ats sty hs (concat (map (remove_in sel (ats # anc)) ks))"
      by simp
    have "find_in sel (ats # anc) z = []"
      if "z \<in> set (concat (map (remove_in sel (ats # anc)) ks))" for z
      using that Elem.IH by auto
    then show ?thesis
      using False by (simp add: y)
  qed
qed

lemma remove_in_clean: "find_in sel anc x = [] \<Longrightarrow> remove_in sel anc x = [x]"
proof (induction x arbitrary: anc)
  case (Text s)
  then show ?case by simp
next
  case (Elem t ats sty hs ks)
  from Elem.prems have nm: "\<not> matches sel anc ats"
    by (auto split: if_splits)
  from Elem.prems have "\<forall>k\<in>set ks. find_in sel (ats # anc) k = []"
    by (auto split: if_splits)
  then have "concat (map (remove_in sel (ats # anc)) ks) = ks"
    using Elem.IH by (intro concat_map_single) simp
  then show ?case
    using nm by simp
qed

lemma remove_in_append_in:
  assumes new: "\<And>anc ats. matches selC anc ats \<Longrightarrow> remove_in selF (ats # anc) new = []"
  shows "find_in selF anc x = [] \<Longrightarrow> remove_in selF anc (append_in selC new anc x) = [x]"
proof (induction x arbitrary: anc)
  case (Text s)
  then show ?case by simp
next
  case (Elem t ats sty hs ks)
  from Elem.prems have nm: "\<not> matches selF anc ats"
    by (auto split: if_splits)
  from Elem.prems have "\<forall>k\<in>set ks. find_in selF (ats # anc) k = []"
    by (auto split: if_splits)
  then have "concat (map (\<lambda>k. remove_in selF (ats # anc) (append_in selC new (ats # anc) k)) ks)
      = ks"
    using Elem.IH by (intro concat_map_single) simp
  then show ?case
    using nm new [of anc ats] by (simp add: o_def)
qed

lemma find_in_append_in:
  assumes new: "\<And>anc ats. matches selC anc ats \<Longrightarrow> find_in selF (ats # anc) new = [new]"
  shows "find_in selF anc x = [] \<Longrightarrow>
         find_in selF anc (append_in selC new anc x) = replicate (length (find_in selC anc x)) new"
proof (induction x arbitrary: anc)
  case (Text s)
  then show ?case by simp
next
  case (Elem t ats sty hs ks)
  from Elem.prems have nm: "\<not> matches selF anc ats"
    by (auto split: if_splits)
  from Elem.prems have "\<forall>k\<in>set ks. find_in selF (ats # anc) k = []"
    by (auto split: if_splits)
  then have kids:
    "concat (map (\<lambda>k. find_in selF (ats # anc) (append_in selC new (ats # anc) k)) ks)
      = replicate (length (concat (map (find_in selC (ats # anc)) ks))) new"
    using Elem.IH by (intro concat_map_replicate) simp
  show ?case
  proof (cases "matches selC anc ats")
    case True
    then show ?thesis
      using nm kids new [OF True] by (simp add: o_def replicate_append_same)
  next
    case False
    then show ?thesis
      using nm kids by (simp add: o_def)
  qed
qed

text \<open>Properties of the selected nodes that depend on their tag and style only.\<close>

lemma find_in_remove_in:
  assumes "\<forall>n\<in>set (find_in sel anc x). Q (tag n) (styles n)"
    and "y \<in> set (remove_in sel' anc x)"
  shows "\<forall>n\<in>set (find_in sel anc y). Q (tag n) (styles n)"
  using assms
proof (induction x arbitrary: anc y)
  case (Text s)
  then show ?case by simp
next
  case (Elem t ats sty hs ks)
  show ?case
  proof (cases "matches sel' anc ats")
    case True
    with Elem.prems show ?thesis by simp
  next
    case False
    with Elem.prems
    have y: "y = Elem t ats sty hs (concat (map (remove_in sel' (ats # anc)) ks))"
      by simp
    have self: "matches sel anc ats \<Longrightarrow> Q t sty"
      using Elem.prems(1) by auto
    have "\<forall>n\<in>set (find_in sel (ats # anc) z). Q (tag n) (styles n)"
      if z: "z \<in> set (remove_in sel' (ats # anc) k)" and k: "k \<in> set ks" for z k
    proof -
      have "\<forall>n\<in>set (find_in sel (ats # anc) k). Q (tag n) (styles n)"
        using Elem.prems(1) k by auto
      then show ?thesis
        using Elem.IH [OF k _ z] by blast
    qed
    then show ?thesis
      using self by (auto simp: y)
  qed
qed

lemma find_in_append_in_prop:
  assumes "\<forall>n\<in>set (find_in sel anc x). Q (tag n) (styles n)"
    and "\<And>anc'. \<forall>n\<in>set (find_in sel anc' new). Q (tag n) (styles n)"
  shows "\<forall>n\<in>set (find_in sel anc (append_in sel' new anc x)). Q (tag n) (styles n)"
  using assms(1)
proof (induction x arbitrary: anc)
  case (Text s)
  then show ?case by simp
next
  case (Elem t ats sty hs ks)
  have self: "matches sel anc ats \<Longrightarrow> Q t sty"
    using Elem.prems by auto
  have "\<forall>n\<in>set (find_in sel (ats # anc) (append_in sel' new (ats # anc) k)). Q (tag n) (styles n)"
    if k: "k \<in> set ks" for k
  proof -
    have "\<forall>n\<in>set (find_in sel (ats # anc) k). Q (tag n) (styles n)"
      using Elem.prems k by auto
    then show ?thesis
      using Elem.IH [OF k] by blast
  qed
  then show ?case
    using self assms(2) [of "ats # anc"] by auto
qed

lemma find_in_each_in_css:
  "\<forall>n\<in>set (find_in sel anc (each_in sel (css_set k v) anc x)). css_get k n = Some v"
proof (induction x arbitrary: anc)
  case (Text s)
  then show ?case by simp
next
  case (Elem t ats sty hs ks)
  have "\<forall>n\<in>set (find_in sel (ats # anc) (each_in sel (css_set k v) (ats # anc) c)).
          css_get k n = Some v" if "c \<in> set ks" for c
    using Elem.IH [OF that] .
  then show ?case
    by (auto simp: Let_def update_conv')
qed

section \<open>Selections from the bound element\<close>

lemma find_in_is_Elem: "n \<in> set (find_in sel anc x) \<Longrightarrow> is_Elem n"
proof (induction x arbitrary: anc)
  case (Text s)
  then show ?case by simp
next
  case (Elem t ats sty hs ks)
  then show ?case by (auto split: if_splits)
qed

lemma jq_find_is_Elem: "n \<in> set (jq_find sel el) \<Longrightarrow> is_Elem n"
  by (cases el) (auto simp: jq_find_def dest: find_in_is_Elem)

lemma css_get_styles: "is_Elem n \<Longrightarrow> css_get k n = map_of (styles n) k"
  by (cases n) simp_all

lemma jq_find_css: "n \<in> set (jq_find sel el) \<Longrightarrow> css_get k n = map_of (styles n) k"
  by (simp add: css_get_styles jq_find_is_Elem)

lemma jq_find_each_css:
  "\<forall>n\<in>set (jq_find sel (jq_each sel (css_set k v) el)). css_get k n = Some v"
proof (cases el)
  case (Text s)
  then show ?thesis by (simp add: jq_find_def jq_each_def below_def)
next
  case (Elem t ats sty hs ks)
  then show ?thesis
    using find_in_each_in_css [of sel "[]" k v]
    by (auto simp: jq_find_def jq_each_def below_def)
qed

lemma jq_find_remove:
  assumes "\<forall>n\<in>set (jq_find sel el). Q (tag n) (styles n)"
  shows "\<forall>n\<in>set (jq_find sel (jq_remove sel' el)). Q (tag n) (styles n)"
proof (cases el)
  case (Text s)
  then show ?thesis by (simp add: jq_find_def jq_remove_def below_def)
next
  case (Elem t ats sty hs ks)
  have "\<forall>n\<in>set (find_in sel [] y). Q (tag n) (styles n)"
    if "y \<in> set (remove_in sel' [] k)" and "k \<in> set ks" for y k
  proof -
    have "\<forall>n\<in>set (find_in sel [] k). Q (tag n) (styles n)"
      using assms Elem that(2) by (auto simp: jq_find_def)
    then show ?thesis
      using find_in_remove_in [of sel "[]" k Q y sel'] that(1) by blast
  qed
  then show ?thesis
    using Elem by (auto simp: jq_find_def jq_remove_def below_def)
qed

lemma jq_find_appendTo:
  assumes "\<forall>n\<in>set (jq_find sel el). Q (tag n) (styles n)"
    and "\<And>anc. \<forall>n\<in>set (find_in sel anc new). Q (tag n) (styles n)"
  shows "\<forall>n\<in>set (jq_find sel (jq_appendTo new sel' el)). Q (tag n) (styles n)"
proof (cases el)
  case (Text s)
  then show ?thesis by (simp add: jq_find_def jq_appendTo_def below_def)
next
  case (Elem t ats sty hs ks)
  have "\<forall>n\<in>set (find_in sel [] (append_in sel' new [] k)). Q (tag n) (styles n)"
    if "k \<in> set ks" for k
  proof -
    have "\<forall>n\<in>set (find_in sel [] k). Q (tag n) (styles n)"
      using assms(1) Elem that by (auto simp: jq_find_def)
    then show ?thesis
      using find_in_append_in_prop [of sel "[]" k Q new sel'] assms(2) by blast
  qed
  then show ?thesis
    using Elem by (auto simp: jq_find_def jq_appendTo_def below_def)
qed

lemma class_in_footer_attrs:
  "class_in c [(''class'', ''modal-footer'')] \<longleftrightarrow> c = ''modal-footer''"
  by (auto simp: class_in_def class_tokens_def is_space_def)

section \<open>Replacing the footer\<close>

lemma jq_find_jq_remove_same: "jq_find sel (jq_remove sel el) = []"
proof (cases el)
  case (Text s)
  then show ?thesis by (simp add: jq_find_def jq_remove_def below_def)
next
  case (Elem t ats sty hs ks)
  have "find_in sel [] y = []" if "y \<in> set (concat (map (remove_in sel []) ks))" for y
    using that find_in_remove_in_same by auto
  then show ?thesis
    using Elem by (simp add: jq_find_def jq_remove_def below_def)
qed

lemma jq_remove_clean: "jq_find sel el = [] \<Longrightarrow> jq_remove sel el = el"
proof (cases el)
  case (Text s)
  then show ?thesis by (simp add: jq_remove_def below_def)
next
  case (Elem t ats sty hs ks)
  assume "jq_find sel el = []"
  with Elem have "\<And>k. k \<in> set ks \<Longrightarrow> remove_in sel [] k = [k]"
    by (simp add: jq_find_def remove_in_clean)
  then have "concat (map (remove_in sel []) ks) = ks"
    by (rule concat_map_single)
  with Elem show ?thesis
    by (simp add: jq_remove_def below_def)
qed

lemma jq_remove_jq_appendTo:
  assumes "\<And>anc ats. matches selC anc ats \<Longrightarrow> remove_in selF (ats # anc) new = []"
    and "jq_find selF el = []"
  shows "jq_remove selF (jq_appendTo new selC el) = el"
proof (cases el)
  case (Text s)
  then show ?thesis by (simp add: jq_remove_def jq_appendTo_def below_def)
next
  case (Elem t ats sty hs ks)
  with assms(2) have "\<And>k. k \<in> set ks \<Longrightarrow>
      remove_in selF [] (append_in selC new [] k) = [k]"
    using remove_in_append_in [of selC selF new "[]"] assms(1)
    by (simp add: jq_find_def)
  then have "concat (map (\<lambda>k. remove_in selF [] (append_in selC new [] k)) ks) = ks"
    by (rule concat_map_single)
  with Elem show ?thesis
    by (simp add: jq_remove_def jq_appendTo_def below_def o_def)
qed

lemma jq_find_jq_appendTo:
  assumes "\<And>anc ats. matches selC anc ats \<Longrightarrow> find_in selF (ats # anc) new = [new]"
    and "jq_find selF el = []"
  shows "jq_find selF (jq_appendTo new selC el) = replicate (length (jq_find selC el)) new"
proof (cases el)
  case (Text s)
  then show ?thesis by (simp add: jq_find_def jq_appendTo_def below_def)
next
  case (Elem t ats sty hs ks)
  with assms(2) have "\<And>k. k \<in> set ks \<Longrightarrow>
      find_in selF [] (append_in selC new [] k) = replicate (length (find_in selC [] k)) new"
    using find_in_append_in [of selC selF new "[]"] assms(1)
    by (simp add: jq_find_def)
  then have "concat (map (\<lambda>k. find_in selF [] (append_in selC new [] k)) ks)
      = replicate (length (concat (map (find_in selC []) ks))) new"
    by (rule concat_map_replicate)
  with Elem show ?thesis
    by (simp add: jq_find_def jq_appendTo_def below_def o_def)
qed

lemma content_then_footer:
  "matches sel_content anc ats \<Longrightarrow> matches sel_footer (ats # anc) [(''class'', ''modal-footer'')]"
  by (simp add: matches_def sel_content_def sel_footer_def class_in_footer_attrs)

lemma remove_in_footer:
  "matches sel_content anc ats \<Longrightarrow> remove_in sel_footer (ats # anc) (modal_footer ns) = []"
  using content_then_footer [of anc ats] by (simp add: modal_footer_def)

lemma find_in_without_footer_class:
  "\<not> within_class ''modal-footer'' n \<Longrightarrow> find_in sel_footer anc n = []"
proof (induction n arbitrary: anc)
  case (Text s)
  then show ?case by simp
next
  case (Elem t ats sty hs ks)
  from Elem.prems have nc: "\<not> class_in ''modal-footer'' ats"
    and nk: "\<forall>k\<in>set ks. \<not> within_class ''modal-footer'' k"
    by (simp_all add: list_ex_iff)
  have "\<not> matches sel_footer anc ats"
    using nc by (simp add: matches_def sel_footer_def)
  moreover have "concat (map (find_in sel_footer (ats # anc)) ks) = []"
    using nk Elem.IH by simp
  ultimately show ?case by simp
qed

lemma find_in_footer_itself:
  assumes "matches sel_content anc ats"
    and "list_all (\<lambda>n. \<not> within_class ''modal-footer'' n) ns"
  shows "find_in sel_footer (ats # anc) (modal_footer ns) = [modal_footer ns]"
proof -
  have "concat (map (find_in sel_footer anc') ns) = []" for anc'
    using assms(2) by (simp add: list_all_iff find_in_without_footer_class)
  then show ?thesis
    using content_then_footer [OF assms(1)] by (simp add: modal_footer_def)
qed

lemma replace_footer_alt:
  "replace_footer F el =
     (if inner_html F = [] then jq_remove sel_footer el
      else jq_appendTo F sel_content (jq_remove sel_footer el))"
  using jq_remove_clean [of sel_footer el]
  by (auto simp: replace_footer_def Let_def)

lemma jq_remove_replace_footer:
  "jq_remove sel_footer (replace_footer (modal_footer ns) el) = jq_remove sel_footer el"
proof -
  have "jq_remove sel_footer (jq_appendTo (modal_footer ns) sel_content (jq_remove sel_footer el))
      = jq_remove sel_footer el"
    by (rule jq_remove_jq_appendTo) (simp_all add: remove_in_footer jq_find_jq_remove_same)
  then show ?thesis
    by (simp add: replace_footer_alt jq_remove_clean jq_find_jq_remove_same)
qed

lemma replace_footer_twice:
  "replace_footer (modal_footer ns) (replace_footer (modal_footer ns) el)
     = replace_footer (modal_footer ns) el"
  using jq_remove_replace_footer [of ns el]
  by (simp add: replace_footer_alt [of "modal_footer ns" "replace_footer (modal_footer ns) el"])
     (simp add: replace_footer_alt)

lemma replace_footer_footers:
  assumes "inner_html (modal_footer ns) \<noteq> []"
    and "list_all (\<lambda>n. \<not> within_class ''modal-footer'' n) ns"
  shows "jq_find sel_footer (replace_footer (modal_footer ns) el) =
     replicate (length (jq_find sel_content (jq_remove sel_footer el))) (modal_footer ns)"
proof -
  have "jq_find sel_footer (jq_appendTo (modal_footer ns) sel_content (jq_remove sel_footer el))
      = replicate (length (jq_find sel_content (jq_remove sel_footer el))) (modal_footer ns)"
    by (rule jq_find_jq_appendTo) (simp_all add: find_in_footer_itself assms(2) jq_find_jq_remove_same)
  with assms(1) show ?thesis
    by (simp add: replace_footer_alt)
qed

section \<open>The buttons of a footer\<close>

lemma is_Elem_addClass: "is_Elem (addClass v n) = is_Elem n"
  by (simp add: addClass_def Let_def is_Elem_attr_set split: option.splits)

lemma is_Elem_click_bind: "is_Elem (click_bind f n) = is_Elem n"
  by (cases n) simp_all

lemma is_Elem_html_set: "is_Elem (html_set ev v n) = is_Elem n"
  by (cases v; cases n) simp_all

lemma is_Elem_attr_map: "attr_map ev m n = Inr n1 \<Longrightarrow> is_Elem n \<Longrightarrow> is_Elem n1"
proof (induction m arbitrary: n)
  case Nil
  then show ?case by simp
next
  case (Cons p m)
  obtain k v where p: "p = (k, v)" by (cases p)
  from Cons.prems(1) p obtain n2 where w: "attr_write ev k v n = Inr n2"
    and r: "attr_map ev m n2 = Inr n1"
    by (auto split: sum.splits)
  from w Cons.prems(2) have "is_Elem n2"
    by (auto simp: attr_write_def Let_def is_Elem_attr_set split: if_splits)
  with r show ?case by (rule Cons.IH)
qed

lemma is_Elem_class_fallback: "is_Elem (class_fallback s n) = is_Elem n"
  by (simp add: class_fallback_def Let_def is_Elem_addClass split: option.splits)

lemma is_Elem_assemble_button: "assemble_button ev b = Inr n \<Longrightarrow> is_Elem n"
proof -
  assume a: "assemble_button ev b = Inr n"
  have nb: "is_Elem new_button"
    by (simp add: new_button_def)
  from a obtain button where
    b: "(case btn_attributes b of None \<Rightarrow> Inr new_button | Some m \<Rightarrow> attr_map ev m new_button)
          = Inr button"
    and n: "n = html_set ev (btn_text b) (click_bind (btn_click b) (addClass (btn_class b) button))"
    by (auto simp: assemble_button_def split: sum.splits)
  from b have "is_Elem button"
    using nb is_Elem_attr_map [of ev _ new_button button] by (auto split: option.splits)
  then show ?thesis
    by (simp add: n is_Elem_html_set is_Elem_click_bind is_Elem_addClass)
qed

lemma is_Elem_build_button: "build_button ev s b = Inr n \<Longrightarrow> is_Elem n"
  by (auto simp: build_button_def is_Elem_class_fallback split: sum.splits
        dest: is_Elem_assemble_button)

lemma build_buttons_Inr:
  "build_buttons ev s bs = Inr ns \<Longrightarrow>
   map (build_button ev s) bs = map Inr ns \<and> list_all is_Elem ns"
  by (induction bs arbitrary: ns) (auto split: sum.splits dest: is_Elem_build_button)

lemma build_buttons_empty: "build_buttons ev s bs = Inr [] \<longleftrightarrow> bs = []"
  by (cases bs) (auto split: sum.splits)

lemma outer_html_Elem: "is_Elem n \<Longrightarrow> outer_html n \<noteq> []"
  by (cases n) simp_all

lemma inner_html_footer: "list_all is_Elem ns \<Longrightarrow> inner_html (modal_footer ns) = [] \<longleftrightarrow> ns = []"
  by (cases ns) (simp_all add: inner_html_def modal_footer_def outer_html_Elem)

lemma jq_remove_updateButtons:
  "jq_remove sel_footer (element (state_of (updateButtons ev cx bs st)))
     = jq_remove sel_footer (element st)"
  by (simp add: element_updateButtons jq_remove_replace_footer split: sum.splits)

lemma jq_remove_auto_buttons:
  "jq_remove sel_footer (element (state_of (auto_buttons ev cx s st)))
     = jq_remove sel_footer (element st)"
  by (simp add: auto_buttons_def footer_buttons_def jq_remove_updateButtons split: jsval.splits)

lemma merged_after_updateButtons:
  assumes "defaults_ref cx < length (store st)"
    and "case options_ref cx of None \<Rightarrow> True | Some r \<Rightarrow> r < length (store st)"
  shows "merged cx call (store (state_of (updateButtons ev cx bs st))) = merged cx call (store st)"
  using assms
  by (auto simp: merged_unfold store_updateButtons hget_merge_settings_old split: option.splits)

text \<open>
  Claim C5, as amended. Let the defaults object and the options object exist. If
  \<^verbatim>\<open>updateButtons\<close> returns, a second call with the same buttons returns too and leaves
  the element exactly as the first call left it; if it throws, because the browser
  rejects an attribute name, the element is as it was before the call. A call with an
  empty list returns and leaves the element without a
  \<^verbatim>\<open>.modal-dialog .modal-content .modal-footer\<close> node. A call with a non-empty list whose
  buttons are built without a throw, and none of whose built buttons is or contains (in
  what its text is parsed to) an element of class \<^verbatim>\<open>modal-footer\<close>, returns, and then
  these nodes are one copy of the new footer for each \<^verbatim>\<open>.modal-dialog .modal-content\<close>
  node that the element has once its old footers are removed, exactly one for the expected
  skeleton; the footer holds the buttons built from the list, one for each entry in order.
\<close>

theorem updateButtons_twice:
  assumes "defaults_ref cx < length (store st)"
    and "case options_ref cx of None \<Rightarrow> True | Some r \<Rightarrow> r < length (store st)"
  shows "(\<forall>st1. updateButtons ev cx bs st = Done st1 \<longrightarrow>
            (\<exists>st2. updateButtons ev cx bs st1 = Done st2 \<and> element st2 = element st1))
     \<and> (\<forall>e st1. updateButtons ev cx bs st = Thrown e st1 \<longrightarrow> element st1 = element st)
     \<and> (bs = [] \<longrightarrow>
          (\<exists>st1. updateButtons ev cx bs st = Done st1 \<and> jq_find sel_footer (element st1) = []))
     \<and> (\<forall>ns. bs \<noteq> [] \<and> build_buttons ev (merged cx [] (store st)) bs = Inr ns
              \<and> list_all (\<lambda>n. \<not> within_class ''modal-footer'' n) ns \<longrightarrow>
          map (build_button ev (merged cx [] (store st))) bs = map Inr ns
          \<and> (\<exists>st1. updateButtons ev cx bs st = Done st1
                \<and> jq_find sel_footer (element st1) =
                    replicate (length (jq_find sel_content (jq_remove sel_footer (element st))))
                      (modal_footer ns)))"
proof -
  let ?S = "merged cx [] (store st)"
  have 1: "\<exists>st2. updateButtons ev cx bs st1 = Done st2 \<and> element st2 = element st1"
    if d: "updateButtons ev cx bs st = Done st1" for st1
  proof -
    from d obtain ns where ns: "build_buttons ev ?S bs = Inr ns"
      and e1: "element st1 = replace_footer (modal_footer ns) (element st)"
      by (auto simp: updateButtons_cases split: sum.splits)
    have "st1 = state_of (updateButtons ev cx bs st)"
      using d by simp
    then have "merged cx [] (store st1) = ?S"
      using merged_after_updateButtons [OF assms] by simp
    then show ?thesis
      using ns e1 by (simp add: updateButtons_cases [of ev cx bs st1] replace_footer_twice)
  qed
  have 2: "element st1 = element st" if "updateButtons ev cx bs st = Thrown e st1" for e st1
    using that by (auto simp: updateButtons_cases split: sum.splits)
  have 3: "\<exists>st1. updateButtons ev cx bs st = Done st1 \<and> jq_find sel_footer (element st1) = []"
    if "bs = []"
    using that
    by (simp add: updateButtons_cases replace_footer_alt inner_html_def modal_footer_def
          jq_find_jq_remove_same)
  have 4: "map (build_button ev ?S) bs = map Inr ns
          \<and> (\<exists>st1. updateButtons ev cx bs st = Done st1
                \<and> jq_find sel_footer (element st1) =
                    replicate (length (jq_find sel_content (jq_remove sel_footer (element st))))
                      (modal_footer ns))"
    if "bs \<noteq> []" and ns: "build_buttons ev ?S bs = Inr ns"
      and w: "list_all (\<lambda>n. \<not> within_class ''modal-footer'' n) ns" for ns
  proof -
    from ns have m: "map (build_button ev ?S) bs = map Inr ns" and el: "list_all is_Elem ns"
      using build_buttons_Inr by blast+
    from m that(1) have "ns \<noteq> []"
      by (cases bs) auto
    then have "inner_html (modal_footer ns) \<noteq> []"
      using el by (simp add: inner_html_footer)
    then show ?thesis
      using m ns w by (simp add: updateButtons_cases replace_footer_footers)
  qed
  show ?thesis
    using 1 2 3 4 by blast
qed

text \<open>
  The claim as stated fails for the empty list: on the example dialog, whose skeleton has
  an old footer, two calls with no buttons leave no footer at all.
\<close>

theorem no_footer_for_empty_list:
  "element (state_of (updateButtons example_env example_ctx []
              (state_of (updateButtons example_env example_ctx [] example_state)))) =
     Elem ''div'' [(''class'', ''modal'')] [] []
       [Elem ''div'' [(''class'', ''modal-dialog'')] [] []
          [Elem ''div'' [(''class'', ''modal-content'')] [] []
             [Elem ''div'' [(''class'', ''modal-body'')] [] [] []]]]
   \<and> jq_find sel_footer
         (element (state_of (updateButtons example_env example_ctx []
                     (state_of (updateButtons example_env example_ctx [] example_state))))) = []"
proof -
  have c: "class_tokens ''modal'' = [''modal'']" "class_tokens ''modal-dialog'' = [''modal-dialog'']"
    "class_tokens ''modal-content'' = [''modal-content'']"
    "class_tokens ''modal-body'' = [''modal-body'']"
    "class_tokens ''modal-footer'' = [''modal-footer'']"
    by (simp_all add: class_tokens_def is_space_def)
  have r: "jq_remove sel_footer example_element =
     Elem ''div'' [(''class'', ''modal'')] [] []
       [Elem ''div'' [(''class'', ''modal-dialog'')] [] []
          [Elem ''div'' [(''class'', ''modal-content'')] [] []
             [Elem ''div'' [(''class'', ''modal-body'')] [] [] []]]]"
    by (simp add: jq_remove_def below_def example_element_def sel_footer_def matches_def
          class_in_def c)
  have e: "element example_state = example_element"
    by (simp add: example_state_def Drupal_dialog_def)
  have u: "element (state_of (updateButtons example_env example_ctx [] s)) =
      jq_remove sel_footer (element s)" for s
    by (simp add: element_updateButtons replace_footer_alt inner_html_def modal_footer_def)
  have 2: "element (state_of (updateButtons example_env example_ctx []
              (state_of (updateButtons example_env example_ctx [] example_state))))
      = jq_remove sel_footer example_element"
    by (simp add: u e jq_remove_clean jq_find_jq_remove_same)
  show ?thesis
    unfolding 2 by (simp add: jq_find_jq_remove_same r [symmetric])
qed

theorem updateButtons_twice_witness:
  "defaults_ref example_ctx < length (store example_state)
   \<and> (case options_ref example_ctx of None \<Rightarrow> True
       | Some r \<Rightarrow> r < length (store example_state))
   \<and> [ok_button] \<noteq> []
   \<and> build_buttons example_env (merged example_ctx [] (store example_state)) [ok_button]
       = Inr [ok_node]
   \<and> list_all (\<lambda>n. \<not> within_class ''modal-footer'' n) [ok_node]
   \<and> (\<exists>st1. updateButtons example_env example_ctx [ok_button] example_state = Done st1
         \<and> jq_find sel_footer (element st1) = [modal_footer [ok_node]]
         \<and> (\<exists>st2. updateButtons example_env example_ctx [ok_button] st1 = Done st2
               \<and> element st2 = element st1))"
proof -
  have h1: "defaults_ref example_ctx < length (store example_state)"
    by (simp add: example_defs)
  have h2: "case options_ref example_ctx of None \<Rightarrow> True
       | Some r \<Rightarrow> r < length (store example_state)"
    by (simp add: example_defs)
  have b: "build_buttons example_env s [ok_button] = Inr [ok_node]" for s
    by (simp add: build_button_def class_fallback_def assemble_button_def ok_button_def
          ok_node_def new_button_def addClass_def example_env_def)
  have w: "list_all (\<lambda>n. \<not> within_class ''modal-footer'' n) [ok_node]"
    by (simp add: ok_node_def class_in_def)
  have c: "class_tokens ''modal'' = [''modal'']" "class_tokens ''modal-dialog'' = [''modal-dialog'']"
    "class_tokens ''modal-content'' = [''modal-content'']"
    "class_tokens ''modal-body'' = [''modal-body'']"
    "class_tokens ''modal-footer'' = [''modal-footer'']"
    by (simp_all add: class_tokens_def is_space_def)
  have n: "length (jq_find sel_content (jq_remove sel_footer (element example_state))) = 1"
    by (simp add: jq_remove_def jq_find_def below_def example_defs sel_footer_def sel_content_def
          matches_def class_in_def c)
  note t = updateButtons_twice [OF h1 h2, of example_env "[ok_button]"]
  from t b w obtain st1 where
    d: "updateButtons example_env example_ctx [ok_button] example_state = Done st1"
    and f: "jq_find sel_footer (element st1) = [modal_footer [ok_node]]"
    unfolding n by auto
  from t d obtain st2 where
    "updateButtons example_env example_ctx [ok_button] st1 = Done st2"
    "element st2 = element st1"
    by blast
  with d f show ?thesis
    using h1 h2 b w by auto
qed

section \<open>Modal and non-modal dialogs\<close>

lemma show_nonmodal:
  "\<not> truthy (getprop (merged cx [(''modal'', JBool False)] h) ''modal'')"
  by (simp add: merged_call_value)

lemma show_modal_truthy:
  "truthy (getprop (merged cx [(''modal'', JBool True)] h) ''modal'')"
  by (simp add: merged_call_value)

lemma auto_buttons_not_enabled:
  "\<not> settingIsTrue (getprop s ''drupalAutoButtons'') \<Longrightarrow> auto_buttons ev cx s st = Done st"
  by (simp add: auto_buttons_def)

text \<open>
  Claim C6. On a bound element, \<^verbatim>\<open>openDialog\<close> with \<^verbatim>\<open>modal\<close> false (as show calls
  it) leaves \<^verbatim>\<open>data-bs-backdrop\<close> at \<^verbatim>\<open>false\<close>, \<^verbatim>\<open>data-bs-keyboard\<close> at
  \<^verbatim>\<open>true\<close> and the element's pointer events at none. Every \<^verbatim>\<open>.modal-dialog\<close> inside
  the element and outside its footers has its pointer events at auto, and when
  \<^verbatim>\<open>drupalAutoButtons\<close> is not enabled, so that the call builds no footer, every
  \<^verbatim>\<open>.modal-dialog\<close> inside the element has. \<^verbatim>\<open>openDialog\<close> with \<^verbatim>\<open>modal\<close> true
  (as showModal calls it), when the merged \<^verbatim>\<open>dialogStatic\<close> is not enabled, leaves the
  two attributes as they were. All of this holds whether the call returns or throws.
\<close>

theorem nonmodal_and_modal_attributes:
  assumes el: "is_Elem (element st)"
  shows "(let st' = state_of (openDialog ev cx [(''modal'', JBool False)] st) in
           attr_get ''data-bs-backdrop'' (element st') = Some ''false''
           \<and> attr_get ''data-bs-keyboard'' (element st') = Some ''true''
           \<and> css_get ''pointer-events'' (element st') = Some ''none''
           \<and> (\<forall>n\<in>set (jq_find sel_dialog (jq_remove sel_footer (element st'))).
                 css_get ''pointer-events'' n = Some ''auto'')
           \<and> (\<not> settingIsTrue
                   (getprop (merged cx [(''modal'', JBool False)] (store st))
                      ''drupalAutoButtons'') \<longrightarrow>
                (\<forall>n\<in>set (jq_find sel_dialog (element st')).
                   css_get ''pointer-events'' n = Some ''auto'')))
         \<and> (\<not> settingIsTrue
                (getprop (merged cx [(''modal'', JBool True)] (store st)) ''dialogStatic'') \<longrightarrow>
             (let st' = state_of (openDialog ev cx [(''modal'', JBool True)] st) in
                attr_get ''data-bs-backdrop'' (element st') = attr_get ''data-bs-backdrop'' (element st)
                \<and> attr_get ''data-bs-keyboard'' (element st')
                    = attr_get ''data-bs-keyboard'' (element st)))"
proof -
  let ?f = "[(''modal'', JBool False)]"
  let ?s = "merged cx ?f (store st)"
  let ?e = "set_static ?s (add_header ev ?s
              (attr_set ''data-settings'' (stringify ev ?s) (set_dialog_classes ?s (element st))))"
  let ?p = "prepared ev cx ?f st"
  let ?a = "state_of (auto_buttons ev cx ?s ?p)"
  have ep: "element ?p = set_nonmodal ?s ?e"
    by (simp add: element_prepared Let_def)
  have ie: "is_Elem ?e"
    using el by (simp add: is_Elem_pre_nonmodal)
  have nm: "\<not> truthy (getprop ?s ''modal'')"
    by (rule show_nonmodal)
  have root: "attr_get ''data-bs-backdrop'' (element ?p) = Some ''false''"
    "attr_get ''data-bs-keyboard'' (element ?p) = Some ''true''"
    "css_get ''pointer-events'' (element ?p) = Some ''none''"
    unfolding ep using nonmodal_root [OF ie nm] by simp_all
  have all: "\<forall>n\<in>set (jq_find sel_dialog (element ?p)). css_get ''pointer-events'' n = Some ''auto''"
    unfolding ep using nm jq_find_each_css [of sel_dialog "''pointer-events''" "''auto''"]
    by (simp add: set_nonmodal_def)
  then have "\<forall>n\<in>set (jq_find sel_dialog (element ?p)).
      map_of (styles n) ''pointer-events'' = Some ''auto''"
    by (simp add: jq_find_css)
  then have "\<forall>n\<in>set (jq_find sel_dialog (jq_remove sel_footer (element ?p))).
      map_of (styles n) ''pointer-events'' = Some ''auto''"
    using jq_find_remove [of sel_dialog "element ?p"
        "\<lambda>t sty. map_of sty ''pointer-events'' = Some ''auto''" sel_footer]
    by simp
  then have outside: "\<forall>n\<in>set (jq_find sel_dialog (jq_remove sel_footer (element ?a))).
      css_get ''pointer-events'' n = Some ''auto''"
    by (simp add: jq_remove_auto_buttons jq_find_css)
  have inside: "\<forall>n\<in>set (jq_find sel_dialog (element ?a)).
      css_get ''pointer-events'' n = Some ''auto''"
    if "\<not> settingIsTrue (getprop ?s ''drupalAutoButtons'')"
    using all by (simp add: auto_buttons_not_enabled [OF that])
  have first: "let st' = state_of (openDialog ev cx ?f st) in
           attr_get ''data-bs-backdrop'' (element st') = Some ''false''
           \<and> attr_get ''data-bs-keyboard'' (element st') = Some ''true''
           \<and> css_get ''pointer-events'' (element st') = Some ''none''
           \<and> (\<forall>n\<in>set (jq_find sel_dialog (jq_remove sel_footer (element st'))).
                 css_get ''pointer-events'' n = Some ''auto'')
           \<and> (\<not> settingIsTrue (getprop ?s ''drupalAutoButtons'') \<longrightarrow>
                (\<forall>n\<in>set (jq_find sel_dialog (element st')).
                   css_get ''pointer-events'' n = Some ''auto''))"
    using root outside inside
    by (simp add: Let_def element_openDialog attr_get_auto_buttons css_get_auto_buttons)
  let ?t = "[(''modal'', JBool True)]"
  let ?s' = "merged cx ?t (store st)"
  have second: "attr_get k (element (state_of (openDialog ev cx ?t st))) = attr_get k (element st)"
    if "\<not> settingIsTrue (getprop ?s' ''dialogStatic'')"
      and "k = ''data-bs-backdrop'' \<or> k = ''data-bs-keyboard''" for k
    using modal_root [OF show_modal_truthy that(1) that(2)]
    by (simp add: element_openDialog attr_get_auto_buttons element_prepared Let_def)
  show ?thesis
    using first second by (simp add: Let_def)
qed

theorem nonmodal_and_modal_witness:
  "is_Elem (element example_state)
   \<and> \<not> settingIsTrue
         (getprop (merged example_ctx [(''modal'', JBool True)] (store example_state))
            ''dialogStatic'')
   \<and> \<not> settingIsTrue
         (getprop (merged example_ctx [(''modal'', JBool False)] (store example_state))
            ''drupalAutoButtons'')
   \<and> attr_get ''data-bs-backdrop''
        (element (state_of (openDialog example_env example_ctx [(''modal'', JBool False)]
                              example_state))) = Some ''false''
   \<and> attr_get ''data-bs-keyboard''
        (element (state_of (openDialog example_env example_ctx [(''modal'', JBool False)]
                              example_state))) = Some ''true''
   \<and> css_get ''pointer-events''
        (element (state_of (openDialog example_env example_ctx [(''modal'', JBool False)]
                              example_state))) = Some ''none''
   \<and> list_all (\<lambda>n. css_get ''pointer-events'' n = Some ''auto'')
        (jq_find sel_dialog
           (element (state_of (openDialog example_env example_ctx [(''modal'', JBool False)]
                                 example_state))))
   \<and> attr_get ''data-bs-backdrop''
        (element (state_of (openDialog example_env example_ctx [(''modal'', JBool True)]
                              example_state))) = None
   \<and> attr_get ''data-bs-keyboard''
        (element (state_of (openDialog example_env example_ctx [(''modal'', JBool True)]
                              example_state))) = None"
proof -
  have e: "is_Elem (element example_state)"
    by (simp add: example_defs)
  have s: "\<not> settingIsTrue
         (getprop (merged example_ctx [(''modal'', JBool True)] (store example_state))
            ''dialogStatic'')"
    by (simp add: example_merged getprop_def dialog_defaults_def settingIsTrue_def)
  have b: "\<not> settingIsTrue
         (getprop (merged example_ctx [(''modal'', JBool False)] (store example_state))
            ''drupalAutoButtons'')"
    by (simp add: merged_def merge_settings_def jq_extend_def extend_obj_def hget_def
          dialog_defaults_def example_defs getprop_def settingIsTrue_def)
  have a: "attr_get ''data-bs-backdrop'' (element example_state) = None"
    "attr_get ''data-bs-keyboard'' (element example_state) = None"
    by (simp_all add: example_defs)
  show ?thesis
    using e s b nonmodal_and_modal_attributes [OF e, of example_env example_ctx]
    unfolding Let_def a list_all_iff by blast
qed

section \<open>The boolean options\<close>

lemma settingIsTrue_enabled: "settingIsTrue v = enabled v"
  by (auto simp: settingIsTrue_def enabled_def)

lemma element_prepared_by_options:
  "element (prepared ev cx call st) = element_by_options ev (merged cx call (store st)) (element st)"
  by (simp add: element_prepared element_by_options_def Let_def add_header_def set_static_def
        modal_header_def header_markup_def settingIsTrue_enabled)

lemma openDialog_not_enabled:
  assumes "\<not> enabled (getprop (merged cx call (store st)) ''drupalAutoButtons'')"
  shows "openDialog ev cx call st =
           Done (after_create ev (length (store st))
                   (show_modal ev (length (store st)) (prepared ev cx call st)))"
  using assms by (simp add: openDialog_phases auto_buttons_def settingIsTrue_enabled)

lemma openDialog_buttons_undefined:
  assumes "getprop (merged cx call (store st)) ''buttons'' = JUndefined"
  shows "(\<exists>s. openDialog ev cx call st = Thrown TypeError s)
           \<longleftrightarrow> enabled (getprop (merged cx call (store st)) ''drupalAutoButtons'')"
  using assms
  by (simp add: openDialog_phases auto_buttons_def footer_buttons_def settingIsTrue_enabled)

lemma openDialog_buttons_array:
  assumes "enabled (getprop (merged cx call (store st)) ''drupalAutoButtons'')"
    and "getprop (merged cx call (store st)) ''buttons'' = JArr bs" and "bs \<noteq> []"
  shows "element (state_of (openDialog ev cx call st)) =
     (case build_buttons ev (merged cx [] (snd (merge_settings cx [call] (store st)))) bs of
        Inl e \<Rightarrow> element_by_options ev (merged cx call (store st)) (element st)
      | Inr ns \<Rightarrow>
          replace_footer (modal_footer ns)
            (element_by_options ev (merged cx call (store st)) (element st)))"
proof -
  have "auto_buttons ev cx (merged cx call (store st)) (prepared ev cx call st)
      = updateButtons ev cx bs (prepared ev cx call st)"
    using assms by (simp add: auto_buttons_def footer_buttons_def settingIsTrue_enabled)
  then show ?thesis
    by (simp add: element_openDialog element_updateButtons store_prepared
          element_prepared_by_options split: sum.splits)
qed

lemma jq_find_attr_set: "jq_find sel (attr_set k v el) = jq_find sel el"
  by (cases el) (simp_all add: jq_find_def)

lemma kids_attr_set: "kids (attr_set k v el) = kids el"
  by (cases el) simp_all

lemma find_in_without_class:
  "\<not> within_class c n \<Longrightarrow> find_in (pre @ [c]) anc n = []"
proof (induction n arbitrary: anc)
  case (Text s)
  then show ?case by simp
next
  case (Elem t ats sty hs ks)
  from Elem.prems have nc: "\<not> class_in c ats"
    and nk: "\<forall>k\<in>set ks. \<not> within_class c k"
    by (simp_all add: list_ex_iff)
  have "\<not> matches (pre @ [c]) anc ats"
    using nc by (simp add: matches_def)
  moreover have "concat (map (find_in (pre @ [c]) (ats # anc)) ks) = []"
    using nk Elem.IH by simp
  ultimately show ?case by simp
qed

lemma find_in_prepend_in:
  assumes "list_all (\<lambda>k. \<not> within_class c k) new"
  shows "\<forall>n\<in>set (find_in (pre @ [c]) anc (prepend_in (pre @ [c]) new anc x)).
           take (length new) (kids n) = new"
proof (induction x arbitrary: anc)
  case (Text s)
  then show ?case by simp
next
  case (Elem t ats sty hs ks)
  have "\<forall>n\<in>set (find_in (pre @ [c]) (ats # anc) (prepend_in (pre @ [c]) new (ats # anc) k)).
          take (length new) (kids n) = new" if "k \<in> set ks" for k
    using Elem.IH [OF that] .
  moreover have "find_in (pre @ [c]) (ats # anc) k = []" if "k \<in> set new" for k
    using that assms by (simp add: list_all_iff find_in_without_class)
  ultimately show ?case
    by auto
qed

lemma jq_find_prependTo_content:
  assumes "list_all (\<lambda>k. \<not> within_class ''modal-content'' k) new"
  shows "\<forall>n\<in>set (jq_find sel_content (jq_prependTo new sel_content el)).
           take (length new) (kids n) = new"
proof (cases el)
  case (Text s)
  then show ?thesis by (simp add: jq_find_def jq_prependTo_def below_def)
next
  case (Elem t ats sty hs ks)
  have "sel_content = [''modal-dialog''] @ [''modal-content'']"
    by (simp add: sel_content_def)
  then show ?thesis
    using Elem find_in_prepend_in [OF assms, of "[''modal-dialog'']" "[]"]
    by (auto simp: jq_find_def jq_prependTo_def below_def)
qed

lemma is_Elem_add_header:
  "is_Elem (add_header ev s (attr_set ''data-settings'' x (set_dialog_classes s el))) = is_Elem el"
  by (simp add: add_header_def set_dialog_classes_def jq_prependTo_def jq_each_def root_simps)

lemma static_root:
  assumes "is_Elem el" and "truthy (getprop s ''modal'')"
  shows "attr_get ''data-bs-backdrop''
           (set_nonmodal s (set_static s
              (add_header ev s (attr_set ''data-settings'' x (set_dialog_classes s el)))))
         = (if enabled (getprop s ''dialogStatic'') then Some ''static''
            else attr_get ''data-bs-backdrop'' el)"
    and "attr_get ''data-bs-keyboard''
           (set_nonmodal s (set_static s
              (add_header ev s (attr_set ''data-settings'' x (set_dialog_classes s el)))))
         = (if enabled (getprop s ''dialogStatic'') then Some ''false''
            else attr_get ''data-bs-keyboard'' el)"
  using assms attr_get_pre_static [of "''data-bs-backdrop''" ev s x el]
    attr_get_pre_static [of "''data-bs-keyboard''" ev s x el]
  by (simp_all add: set_nonmodal_def set_static_def settingIsTrue_enabled attr_get_attr_set
        is_Elem_attr_set is_Elem_add_header)

text \<open>
  Claim C9. \<^verbatim>\<open>settingIsTrue\<close> holds of the boolean true and of the string \<^verbatim>\<open>true\<close>
  and of nothing else (not of 1, of another non-empty string or of an object), and
  \<^verbatim>\<open>openDialog\<close> consults each of the four options through it, on the merged settings.
  When \<^verbatim>\<open>drupalAutoButtons\<close> is not enabled the call returns and leaves the element as
  the three other options decide; when it is enabled and the buttons are a non-empty
  array, the footer is replaced on that element (or a throw leaves it); and with the
  buttons undefined the call throws a TypeError exactly when it is enabled. For showModal
  on a bound element: \<^verbatim>\<open>data-bs-backdrop\<close> and \<^verbatim>\<open>data-bs-keyboard\<close> become
  \<^verbatim>\<open>static\<close> and \<^verbatim>\<open>false\<close> when \<^verbatim>\<open>dialogStatic\<close> is enabled and stay as they were
  otherwise; when \<^verbatim>\<open>dialogShowHeader\<close> is enabled (and no footer is built, and the parsed
  header holds no \<^verbatim>\<open>.modal-content\<close> of its own) every
  \<^verbatim>\<open>.modal-dialog .modal-content\<close> begins with the parsed header, whose markup has the
  title exactly when \<^verbatim>\<open>dialogShowHeaderTitle\<close> is enabled; and when it is not enabled,
  the children of the element are those that the class reset of lines 141-146 leaves.
\<close>

theorem switches_true_or_string_true:
  assumes el: "is_Elem (element st)"
  shows "(settingIsTrue v \<longleftrightarrow> v = JBool True \<or> v = JStr ''true'')
   \<and> settingIsTrue (JNum 1) = False
   \<and> settingIsTrue (JStr ''yes'') = False
   \<and> settingIsTrue (JObj ob) = False
   \<and> (let S = merged cx call (store st);
           X = element_by_options ev S (element st)
       in (\<not> enabled (getprop S ''drupalAutoButtons'') \<longrightarrow>
             (\<exists>s. openDialog ev cx call st = Done s \<and> element s = X))
          \<and> (\<forall>bs. enabled (getprop S ''drupalAutoButtons'') \<and> getprop S ''buttons'' = JArr bs
                   \<and> bs \<noteq> [] \<longrightarrow>
                element (state_of (openDialog ev cx call st)) =
                  (case build_buttons ev
                          (merged cx [] (snd (merge_settings cx [call] (store st)))) bs of
                     Inl e \<Rightarrow> X
                   | Inr ns \<Rightarrow> replace_footer (modal_footer ns) X))
          \<and> (getprop S ''buttons'' = JUndefined \<longrightarrow>
                ((\<exists>s. openDialog ev cx call st = Thrown TypeError s)
                   \<longleftrightarrow> enabled (getprop S ''drupalAutoButtons''))))
   \<and> (let S = merged cx [(''modal'', JBool True)] (store st);
           st' = state_of (dialog_showModal ev cx st);
           H = parse_html ev ''div'' (header_markup ev S)
       in attr_get ''data-bs-backdrop'' (element st') =
            (if enabled (getprop S ''dialogStatic'') then Some ''static''
             else attr_get ''data-bs-backdrop'' (element st))
          \<and> attr_get ''data-bs-keyboard'' (element st') =
            (if enabled (getprop S ''dialogStatic'') then Some ''false''
             else attr_get ''data-bs-keyboard'' (element st))
          \<and> (\<not> enabled (getprop S ''drupalAutoButtons'')
               \<and> enabled (getprop S ''dialogShowHeader'')
               \<and> list_all (\<lambda>k. \<not> within_class ''modal-content'' k) H \<longrightarrow>
              (\<forall>n\<in>set (jq_find sel_content (element st')). take (length H) (kids n) = H))
          \<and> (\<not> enabled (getprop S ''drupalAutoButtons'')
               \<and> \<not> enabled (getprop S ''dialogShowHeader'') \<longrightarrow>
              kids (element st') = kids (set_dialog_classes S (element st))))"
proof -
  have a: "(settingIsTrue v \<longleftrightarrow> v = JBool True \<or> v = JStr ''true'')
     \<and> settingIsTrue (JNum 1) = False
     \<and> settingIsTrue (JStr ''yes'') = False
     \<and> settingIsTrue (JObj ob) = False"
    by (auto simp: settingIsTrue_def)
  let ?S = "merged cx call (store st)"
  let ?X = "element_by_options ev ?S (element st)"
  have b1: "\<exists>s. openDialog ev cx call st = Done s \<and> element s = ?X"
    if "\<not> enabled (getprop ?S ''drupalAutoButtons'')"
    using openDialog_not_enabled [OF that, of ev]
    by (simp add: element_after_create element_show_modal element_prepared_by_options)
  have b: "let S = ?S; X = ?X
       in (\<not> enabled (getprop S ''drupalAutoButtons'') \<longrightarrow>
             (\<exists>s. openDialog ev cx call st = Done s \<and> element s = X))
          \<and> (\<forall>bs. enabled (getprop S ''drupalAutoButtons'') \<and> getprop S ''buttons'' = JArr bs
                   \<and> bs \<noteq> [] \<longrightarrow>
                element (state_of (openDialog ev cx call st)) =
                  (case build_buttons ev
                          (merged cx [] (snd (merge_settings cx [call] (store st)))) bs of
                     Inl e \<Rightarrow> X
                   | Inr ns \<Rightarrow> replace_footer (modal_footer ns) X))
          \<and> (getprop S ''buttons'' = JUndefined \<longrightarrow>
                ((\<exists>s. openDialog ev cx call st = Thrown TypeError s)
                   \<longleftrightarrow> enabled (getprop S ''drupalAutoButtons'')))"
    unfolding Let_def
    using b1 openDialog_buttons_array [of cx call st _ ev]
      openDialog_buttons_undefined [of cx call st ev]
    by blast
  let ?t = "[(''modal'', JBool True)]"
  let ?T = "merged cx ?t (store st)"
  let ?st' = "state_of (dialog_showModal ev cx st)"
  let ?H = "parse_html ev ''div'' (header_markup ev ?T)"
  have mt: "truthy (getprop ?T ''modal'')"
    by (rule show_modal_truthy)
  have c1: "attr_get ''data-bs-backdrop'' (element ?st') =
            (if enabled (getprop ?T ''dialogStatic'') then Some ''static''
             else attr_get ''data-bs-backdrop'' (element st))"
    "attr_get ''data-bs-keyboard'' (element ?st') =
            (if enabled (getprop ?T ''dialogStatic'') then Some ''false''
             else attr_get ''data-bs-keyboard'' (element st))"
    using static_root [OF el mt]
    by (simp_all add: dialog_showModal_def element_openDialog attr_get_auto_buttons
          element_prepared Let_def)
  have e: "element ?st' = element_by_options ev ?T (element st)"
    if "\<not> enabled (getprop ?T ''drupalAutoButtons'')"
    using openDialog_not_enabled [OF that, of ev]
    by (simp add: dialog_showModal_def element_after_create element_show_modal
          element_prepared_by_options)
  have c3: "\<forall>n\<in>set (jq_find sel_content (element ?st')). take (length ?H) (kids n) = ?H"
    if "\<not> enabled (getprop ?T ''drupalAutoButtons'')" "enabled (getprop ?T ''dialogShowHeader'')"
      "list_all (\<lambda>k. \<not> within_class ''modal-content'' k) ?H"
    using that(2) mt jq_find_prependTo_content [OF that(3)]
    by (simp add: e [OF that(1)] element_by_options_def Let_def set_nonmodal_def jq_find_attr_set)
  have c4: "kids (element ?st') = kids (set_dialog_classes ?T (element st))"
    if "\<not> enabled (getprop ?T ''drupalAutoButtons'')" "\<not> enabled (getprop ?T ''dialogShowHeader'')"
    using that(2) mt
    by (simp add: e [OF that(1)] element_by_options_def Let_def set_nonmodal_def kids_attr_set)
  have c: "let S = ?T; st' = ?st'; H = ?H
       in attr_get ''data-bs-backdrop'' (element st') =
            (if enabled (getprop S ''dialogStatic'') then Some ''static''
             else attr_get ''data-bs-backdrop'' (element st))
          \<and> attr_get ''data-bs-keyboard'' (element st') =
            (if enabled (getprop S ''dialogStatic'') then Some ''false''
             else attr_get ''data-bs-keyboard'' (element st))
          \<and> (\<not> enabled (getprop S ''drupalAutoButtons'')
               \<and> enabled (getprop S ''dialogShowHeader'')
               \<and> list_all (\<lambda>k. \<not> within_class ''modal-content'' k) H \<longrightarrow>
              (\<forall>n\<in>set (jq_find sel_content (element st')). take (length H) (kids n) = H))
          \<and> (\<not> enabled (getprop S ''drupalAutoButtons'')
               \<and> \<not> enabled (getprop S ''dialogShowHeader'') \<longrightarrow>
              kids (element st') = kids (set_dialog_classes S (element st)))"
    unfolding Let_def using c1 c3 c4 by blast
  show ?thesis
    using a b c unfolding Let_def by (intro conjI) (elim conjE, assumption)+
qed

theorem switches_witness:
  "is_Elem (element switch_state)
   \<and> getprop (merged example_ctx [(''modal'', JBool True)] (store switch_state))
        ''dialogStatic'' = JStr ''true''
   \<and> getprop (merged example_ctx [(''modal'', JBool True)] (store switch_state))
        ''dialogShowHeaderTitle'' = JNum 1
   \<and> getprop (merged example_ctx [(''modal'', JBool True)] (store switch_state))
        ''dialogShowHeader'' = JBool True
   \<and> getprop (merged example_ctx [(''modal'', JBool True)] (store switch_state))
        ''drupalAutoButtons'' = JUndefined
   \<and> (\<exists>s. dialog_showModal example_env example_ctx switch_state = Done s)
   \<and> attr_get ''data-bs-backdrop''
        (element (state_of (dialog_showModal example_env example_ctx switch_state)))
       = Some ''static''
   \<and> attr_get ''data-bs-keyboard''
        (element (state_of (dialog_showModal example_env example_ctx switch_state)))
       = Some ''false''
   \<and> list_all (\<lambda>n. take 1 (kids n)
                     = [Text (''<div class=\"modal-header\">'' @ close_button example_env)])
        (jq_find sel_content
           (element (state_of (dialog_showModal example_env example_ctx switch_state))))"
proof -
  let ?S = "merged example_ctx [(''modal'', JBool True)] (store switch_state)"
  have e: "is_Elem (element switch_state)"
    by (simp add: switch_state_def Drupal_dialog_def example_element_def)
  have m: "?S =
      [(''autoOpen'', JBool True), (''dialogClasses'', JStr []),
       (''dialogShowHeader'', JBool True), (''dialogShowHeaderTitle'', JNum 1),
       (''dialogStatic'', JStr ''true''), (''dialogHeadingLevel'', JNum 5),
       (''buttonClass'', JStr ''btn''), (''buttonPrimaryClass'', JStr ''btn-primary''),
       (''close'', the (map_of dialog_defaults ''close'')), (''modal'', JBool True)]"
    by (simp add: merged_def merge_settings_def jq_extend_def extend_obj_def hget_def
          dialog_defaults_def switch_state_def switch_options_def example_ctx_def Drupal_dialog_def)
  have g: "getprop ?S ''dialogStatic'' = JStr ''true''"
    "getprop ?S ''dialogShowHeaderTitle'' = JNum 1"
    "getprop ?S ''dialogShowHeader'' = JBool True"
    "getprop ?S ''drupalAutoButtons'' = JUndefined"
    unfolding m by (simp_all add: getprop_def)
  have h: "parse_html example_env ''div'' (header_markup example_env ?S)
      = [Text (''<div class=\"modal-header\">'' @ close_button example_env)]"
    by (simp add: header_markup_def g enabled_def example_env_def)
  note t = switches_true_or_string_true [OF e, where v = "JBool True" and ob = "[]"
      and cx = example_ctx and call = "[(''modal'', JBool True)]" and ev = example_env]
  have d: "\<exists>s. dialog_showModal example_env example_ctx switch_state = Done s"
    using t by (auto simp: Let_def g enabled_def dialog_showModal_def)
  have b: "attr_get ''data-bs-backdrop''
        (element (state_of (dialog_showModal example_env example_ctx switch_state)))
       = Some ''static''"
    "attr_get ''data-bs-keyboard''
        (element (state_of (dialog_showModal example_env example_ctx switch_state)))
       = Some ''false''"
    using t by (simp_all add: Let_def g enabled_def)
  have k: "list_all (\<lambda>n. take 1 (kids n)
                     = [Text (''<div class=\"modal-header\">'' @ close_button example_env)])
        (jq_find sel_content
           (element (state_of (dialog_showModal example_env example_ctx switch_state))))"
    using t unfolding Let_def h by (simp add: g enabled_def list_all_iff)
  show ?thesis
    using e g d b k by blast
qed

section \<open>Class tokens\<close>

lemma tokens_append_nospace:
  "list_all (\<lambda>c. \<not> is_space c) t \<Longrightarrow> tokens cur (t @ s) = tokens (cur @ t) s"
  by (induction t arbitrary: cur) simp_all

lemma tokens_are_names:
  "list_all (\<lambda>c. \<not> is_space c) cur \<Longrightarrow> t \<in> set (tokens cur s) \<Longrightarrow> is_class_name t"
proof (induction s arbitrary: cur)
  case Nil
  then show ?case by (auto simp: is_class_name_def split: if_splits)
next
  case (Cons c s)
  show ?case
  proof (cases "is_space c")
    case True
    with Cons.prems have "t = cur \<and> cur \<noteq> [] \<or> t \<in> set (tokens [] s)"
      by (auto split: if_splits)
    then show ?thesis
      using Cons.IH [of "[]"] Cons.prems(1) by (auto simp: is_class_name_def)
  next
    case False
    with Cons.prems show ?thesis
      using Cons.IH [of "cur @ [c]"] by simp
  qed
qed

lemma class_tokens_are_names: "t \<in> set (class_tokens s) \<Longrightarrow> is_class_name t"
  unfolding class_tokens_def using tokens_are_names [of "[]" t s] by simp

lemma class_tokens_name: "is_class_name t \<Longrightarrow> class_tokens t = [t]"
  using tokens_append_nospace [of t "[]" "[]"]
  by (simp add: class_tokens_def is_class_name_def)

lemma is_space_blank: "is_space CHR '' ''"
  by (simp add: is_space_def)

lemma class_tokens_join:
  "list_all is_class_name ts \<Longrightarrow> class_tokens (join_with '' '' ts) = ts"
proof (induction ts rule: induct_list012)
  case 1
  then show ?case by (simp add: class_tokens_def)
next
  case (2 x)
  then show ?case by (simp add: class_tokens_name)
next
  case (3 x y ys)
  from "3.prems" have x: "x \<noteq> []" "list_all (\<lambda>c. \<not> is_space c) x"
    by (simp_all add: is_class_name_def)
  have "tokens [] (x @ CHR '' '' # join_with '' '' (y # ys))
      = tokens x (CHR '' '' # join_with '' '' (y # ys))"
    using tokens_append_nospace [OF x(2), of "[]"] by simp
  also have "\<dots> = x # tokens [] (join_with '' '' (y # ys))"
    using x(1) by (simp add: is_space_blank)
  finally show ?case
    using "3.IH"(2) "3.prems" by (simp add: class_tokens_def)
qed

lemma add_missing_names:
  "list_all is_class_name cur \<Longrightarrow> list_all is_class_name names \<Longrightarrow>
   list_all is_class_name (add_missing cur names)"
  unfolding add_missing_def
  by (induction names arbitrary: cur) simp_all

lemma add_missing_two:
  "add_missing ts [a, b] =
     (let ts1 = (if a \<in> set ts then ts else ts @ [a])
      in if b \<in> set ts1 then ts1 else ts1 @ [b])"
  by (simp add: add_missing_def Let_def)

lemma count_add_missing_first:
  "count_list (add_missing ts [a, b]) a = max 1 (count_list ts a)"
  by (auto simp: add_missing_two Let_def count_list_0_iff max_def not_le
        dest: count_notin)

lemma count_add_missing_second:
  "count_list (add_missing ts [a, b]) b = max 1 (count_list ts b)"
  by (auto simp: add_missing_two Let_def count_list_0_iff max_def not_le
        dest: count_notin)

section \<open>The pattern and the tokens\<close>

lemma space_not_word: "is_space c \<Longrightarrow> \<not> is_word_char c"
  by (auto simp: is_space_def is_word_char_def)

lemma btn_match_from_suffix:
  "btn_match_from True s \<Longrightarrow> \<not> is_word_char c \<Longrightarrow> btn_match_from b (pre @ c # s)"
  by (induction pre arbitrary: b) auto

lemma btn_match_from_prefix:
  "take 4 t = ''btn-'' \<Longrightarrow> btn_match_from True (t @ s)"
  by (cases t) (auto simp: take_Cons' split: if_splits)

lemma btn_token_matches:
  "t \<in> set (tokens cur s) \<Longrightarrow> take 4 t = ''btn-'' \<Longrightarrow> btn_match_from True (cur @ s)"
proof (induction s arbitrary: cur)
  case Nil
  then show ?case
    using btn_match_from_prefix [of t "[]"] by (auto split: if_splits)
next
  case (Cons c s)
  show ?case
  proof (cases "is_space c")
    case True
    with Cons.prems(1) have "t = cur \<or> t \<in> set (tokens [] s)"
      by (auto split: if_splits)
    then show ?thesis
    proof
      assume "t = cur"
      then show ?thesis
        using btn_match_from_prefix [OF Cons.prems(2), of "c # s"] by simp
    next
      assume "t \<in> set (tokens [] s)"
      then have "btn_match_from True s"
        using Cons.IH [of "[]"] Cons.prems(2) by simp
      then show ?thesis
        using btn_match_from_suffix [of s c True cur] space_not_word [OF True] by simp
    qed
  next
    case False
    with Cons.prems show ?thesis
      using Cons.IH [of "cur @ [c]"] by simp
  qed
qed

lemma has_btn_token_match: "has_btn_token c \<Longrightarrow> btn_match c"
  using btn_token_matches [of _ "[]" c]
  by (auto simp: has_btn_token_def btn_match_def class_tokens_def list_ex_iff)

section \<open>The fallback classes of a button\<close>

lemma attr_get_Some_Elem: "attr_get k n = Some v \<Longrightarrow> is_Elem n"
  by (cases n) simp_all

lemma fallback_adds:
  assumes c: "attr_get ''class'' n = Some c"
    and a: "is_class_name a" and b: "is_class_name b"
  shows "\<exists>c'. attr_get ''class'' (addClass (Some (a @ '' '' @ b)) n) = Some c'
           \<and> class_tokens c' = add_missing (class_tokens c) [a, b]"
proof -
  have names: "class_tokens (a @ '' '' @ b) = [a, b]"
    using class_tokens_join [of "[a, b]"] a b by simp
  let ?final = "join_with '' '' (add_missing (class_tokens c) [a, b])"
  have "list_all is_class_name (class_tokens c)"
    by (simp add: list_all_iff class_tokens_are_names)
  then have "list_all is_class_name (add_missing (class_tokens c) [a, b])"
    using a b by (intro add_missing_names) simp_all
  then have t: "class_tokens ?final = add_missing (class_tokens c) [a, b]"
    by (rule class_tokens_join)
  have "attr_get ''class'' (addClass (Some (a @ '' '' @ b)) n) = Some ?final"
    using c attr_get_Some_Elem [OF c]
    by (simp add: addClass_def names [simplified] Let_def attr_get_attr_set)
  with t show ?thesis by simp
qed

lemma assemble_class_only:
  "is_class_name c \<Longrightarrow>
   assemble_button example_env (ButtonSpec (Some ''OK'') (Some c) None None) =
     Inr (Elem ''button'' [(''type'', ''button''), (''class'', c)] [] [ClickForward None]
            [Text ''OK''])"
proof -
  assume c: "is_class_name c"
  then have n: "c \<noteq> []" by (simp add: is_class_name_def)
  have e: "class_tokens [] = []" by (simp add: class_tokens_def)
  show ?thesis
    using n by (auto simp: assemble_button_def new_button_def addClass_def class_tokens_name [OF c]
          add_missing_def e Let_def example_env_def)
qed

lemma example_names:
  "is_class_name ''btn''" "is_class_name ''btn-primary''" "is_class_name ''my-button''"
  "is_class_name ''btn-secondary''" "is_class_name ''x-btn-y''"
  by (simp_all add: is_class_name_def is_space_def)

text \<open>
  Claim C1, as amended. Let the fallback classes of the settings be two class names, and
  let the button be assembled without a throw. A button whose assembled class list has a
  \<^verbatim>\<open>btn-*\<close> token is left as assembled, and so is a button without a class attribute
  or with an empty one. A button whose assembled class attribute is not empty and has no
  \<^verbatim>\<open>btn-\<close> at a word boundary gets both fallback classes: each one that the list lacks
  is added once at the end, and one that the list has already is not repeated. A throw
  while the button is assembled is the outcome of building it.
\<close>

theorem class_fallback_rule:
  assumes "getprop s ''buttonClass'' = JStr bc" and "getprop s ''buttonPrimaryClass'' = JStr bp"
    and "is_class_name bc" and "is_class_name bp"
  shows "(\<forall>e. assemble_button ev b = Inl e \<longrightarrow> build_button ev s b = Inl e)
     \<and> (\<forall>n c. assemble_button ev b = Inr n \<and> attr_get ''class'' n = Some c \<and> has_btn_token c \<longrightarrow>
            build_button ev s b = Inr n)
     \<and> (\<forall>n. assemble_button ev b = Inr n
              \<and> (attr_get ''class'' n = None \<or> attr_get ''class'' n = Some []) \<longrightarrow>
            build_button ev s b = Inr n)
     \<and> (\<forall>n c. assemble_button ev b = Inr n \<and> attr_get ''class'' n = Some c \<and> c \<noteq> []
              \<and> \<not> btn_match c \<longrightarrow>
            build_button ev s b = Inr (addClass (Some (bc @ '' '' @ bp)) n)
            \<and> (\<exists>c'. attr_get ''class'' (addClass (Some (bc @ '' '' @ bp)) n) = Some c'
                  \<and> class_tokens c' = add_missing (class_tokens c) [bc, bp]
                  \<and> bc \<in> set (class_tokens c') \<and> bp \<in> set (class_tokens c')
                  \<and> count_list (class_tokens c') bc = max 1 (count_list (class_tokens c) bc)
                  \<and> count_list (class_tokens c') bp = max 1 (count_list (class_tokens c) bp)))"
proof -
  have j: "array_join '' '' [getprop s ''buttonClass'', getprop s ''buttonPrimaryClass'']
      = bc @ '' '' @ bp"
    using assms(1,2) by (simp add: array_join_def)
  have 0: "build_button ev s b = Inl e" if "assemble_button ev b = Inl e" for e
    using that by (simp add: build_button_def)
  have 1: "build_button ev s b = Inr n"
    if "assemble_button ev b = Inr n" and "attr_get ''class'' n = Some c" and "has_btn_token c"
    for n c
    using that has_btn_token_match [of c] by (simp add: build_button_def class_fallback_def)
  have 2: "build_button ev s b = Inr n"
    if "assemble_button ev b = Inr n"
      and "attr_get ''class'' n = None \<or> attr_get ''class'' n = Some []" for n
    using that by (auto simp: build_button_def class_fallback_def)
  have 3: "build_button ev s b = Inr (addClass (Some (bc @ '' '' @ bp)) n)
            \<and> (\<exists>c'. attr_get ''class'' (addClass (Some (bc @ '' '' @ bp)) n) = Some c'
                  \<and> class_tokens c' = add_missing (class_tokens c) [bc, bp]
                  \<and> bc \<in> set (class_tokens c') \<and> bp \<in> set (class_tokens c')
                  \<and> count_list (class_tokens c') bc = max 1 (count_list (class_tokens c) bc)
                  \<and> count_list (class_tokens c') bp = max 1 (count_list (class_tokens c) bp))"
    if a: "assemble_button ev b = Inr n" and c: "attr_get ''class'' n = Some c"
      and "c \<noteq> []" and "\<not> btn_match c" for n c
  proof -
    have e: "build_button ev s b = Inr (addClass (Some (bc @ '' '' @ bp)) n)"
      using that by (simp add: build_button_def class_fallback_def j)
    obtain c' where c': "attr_get ''class'' (addClass (Some (bc @ '' '' @ bp)) n) = Some c'"
      and t: "class_tokens c' = add_missing (class_tokens c) [bc, bp]"
      using fallback_adds [OF c assms(3,4)] by blast
    have "bc \<in> set (class_tokens c')" "bp \<in> set (class_tokens c')"
      unfolding t by (auto simp: add_missing_two Let_def)
    then show ?thesis
      using e c' t by (simp add: count_add_missing_first count_add_missing_second)
  qed
  show ?thesis
    using 0 1 2 3 by blast
qed

text \<open>
  The claim as stated fails for a button without a class: with the shipped defaults it
  gets no class at all. The pattern of line 104 also matches \<^verbatim>\<open>btn-\<close> after a hyphen,
  so the class \<^verbatim>\<open>x-btn-y\<close>, which has no \<^verbatim>\<open>btn-*\<close> token, gets no fallback either.
\<close>

theorem fallback_skipped_without_class:
  "assemble_button example_env plain_button =
     Inr (Elem ''button'' [(''type'', ''button'')] [] [ClickForward None] [Text ''OK''])
   \<and> build_button example_env dialog_defaults plain_button =
       Inr (Elem ''button'' [(''type'', ''button'')] [] [ClickForward None] [Text ''OK''])
   \<and> assemble_button example_env hyphen_button =
       Inr (Elem ''button'' [(''type'', ''button''), (''class'', ''x-btn-y'')] []
              [ClickForward None] [Text ''OK''])
   \<and> \<not> has_btn_token ''x-btn-y''
   \<and> build_button example_env dialog_defaults hyphen_button =
       Inr (Elem ''button'' [(''type'', ''button''), (''class'', ''x-btn-y'')] []
              [ClickForward None] [Text ''OK''])"
proof -
  have p: "assemble_button example_env plain_button =
      Inr (Elem ''button'' [(''type'', ''button'')] [] [ClickForward None] [Text ''OK''])"
    by (simp add: assemble_button_def plain_button_def new_button_def addClass_def example_env_def)
  have h: "assemble_button example_env hyphen_button =
      Inr (Elem ''button'' [(''type'', ''button''), (''class'', ''x-btn-y'')] []
             [ClickForward None] [Text ''OK''])"
    unfolding hyphen_button_def by (rule assemble_class_only) (rule example_names)
  have m: "btn_match ''x-btn-y''"
    by (simp add: btn_match_def is_word_char_def)
  have t: "\<not> has_btn_token ''x-btn-y''"
    by (simp add: has_btn_token_def class_tokens_name example_names)
  show ?thesis
    using m t by (simp add: build_button_def class_fallback_def p h)
qed

theorem class_fallback_witness:
  "getprop dialog_defaults ''buttonClass'' = JStr ''btn''
   \<and> getprop dialog_defaults ''buttonPrimaryClass'' = JStr ''btn-primary''
   \<and> is_class_name ''btn'' \<and> is_class_name ''btn-primary''
   \<and> (\<exists>n. assemble_button example_env secondary_button = Inr n
         \<and> attr_get ''class'' n = Some ''btn-secondary''
         \<and> build_button example_env dialog_defaults secondary_button = Inr n)
   \<and> has_btn_token ''btn-secondary''
   \<and> \<not> btn_match ''my-button''
   \<and> (\<exists>n n' c'. assemble_button example_env my_button = Inr n
         \<and> attr_get ''class'' n = Some ''my-button''
         \<and> build_button example_env dialog_defaults my_button = Inr n'
         \<and> attr_get ''class'' n' = Some c'
         \<and> class_tokens c' = [''my-button'', ''btn'', ''btn-primary''])"
proof -
  have g: "getprop dialog_defaults ''buttonClass'' = JStr ''btn''"
    "getprop dialog_defaults ''buttonPrimaryClass'' = JStr ''btn-primary''"
    by (simp_all add: getprop_def dialog_defaults_def)
  obtain ns where s: "assemble_button example_env secondary_button = Inr ns"
    and sc: "attr_get ''class'' ns = Some ''btn-secondary''"
    by (simp add: secondary_button_def assemble_class_only example_names)
  have st: "has_btn_token ''btn-secondary''"
    by (simp add: has_btn_token_def class_tokens_name example_names)
  obtain nm where m: "assemble_button example_env my_button = Inr nm"
    and mc: "attr_get ''class'' nm = Some ''my-button''"
    by (simp add: my_button_def assemble_class_only example_names)
  have nb: "\<not> btn_match ''my-button''"
    by (simp add: btn_match_def is_word_char_def)
  have a: "add_missing (class_tokens ''my-button'') [''btn'', ''btn-primary'']
      = [''my-button'', ''btn'', ''btn-primary'']"
    by (simp add: class_tokens_name example_names add_missing_two)
  note r = class_fallback_rule [OF g example_names(1,2), of example_env]
  have 1: "build_button example_env dialog_defaults secondary_button = Inr ns"
    using r [of secondary_button] s sc st by blast
  have "\<exists>n' c'. build_button example_env dialog_defaults my_button = Inr n'
          \<and> attr_get ''class'' n' = Some c'
          \<and> class_tokens c' = [''my-button'', ''btn'', ''btn-primary'']"
    using r [of my_button] m mc nb unfolding a [symmetric] by blast
  then show ?thesis
    using g example_names(1,2) s sc 1 st nb m mc by blast
qed

end
